theory Spec2Isabelle
  imports Complex_Main "HOL-Library.Sublist" "HOL-Library.AList" "HOL-Library.Log_Nat"
begin

section \<open>Numbers\<close>

text \<open>
  A pandas cell is a float64. A finite value is a rational number (every float64 is
  one), and the three special values that pandas arithmetic produces (\<open>inf\<close>, \<open>-inf\<close> and
  \<open>NaN\<close>, which is also pandas' null) are constructors of their own. The sign of zero is
  outside the model.

  Arithmetic comes at two levels. The operations of this section are the exact ones on
  these values; the splitting, masking and percentage code is modelled with them, and
  the results below that use them are about structure or about concrete computations.
  The section on float64 arithmetic rounds the result of every operation to the nearest
  float64; apportioned rounding, whose specification is about sums being equal to the
  last bit, is modelled with those.
\<close>

datatype cell = Fin rat | PInf | NInf | NaN

fun isna :: "cell \<Rightarrow> bool" where
  "isna NaN = True"
| "isna _ = False"

fun neg_num :: "cell \<Rightarrow> cell" where
  "neg_num (Fin a) = Fin (- a)"
| "neg_num PInf = NInf"
| "neg_num NInf = PInf"
| "neg_num NaN = NaN"

fun add_num :: "cell \<Rightarrow> cell \<Rightarrow> cell" where
  "add_num (Fin a) (Fin b) = Fin (a + b)"
| "add_num NaN _ = NaN"
| "add_num _ NaN = NaN"
| "add_num PInf NInf = NaN"
| "add_num NInf PInf = NaN"
| "add_num PInf _ = PInf"
| "add_num NInf _ = NInf"
| "add_num _ PInf = PInf"
| "add_num _ NInf = NInf"

definition sub_num :: "cell \<Rightarrow> cell \<Rightarrow> cell" where
  "sub_num a b = add_num a (neg_num b)"

text \<open>The sign of an infinite product or quotient: \<open>True\<close> is positive.\<close>

definition signed_inf :: "bool \<Rightarrow> cell" where
  "signed_inf pos = (if pos then PInf else NInf)"

fun mul_num :: "cell \<Rightarrow> cell \<Rightarrow> cell" where
  "mul_num (Fin a) (Fin b) = Fin (a * b)"
| "mul_num NaN _ = NaN"
| "mul_num _ NaN = NaN"
| "mul_num (Fin a) PInf = (if a = 0 then NaN else signed_inf (0 < a))"
| "mul_num (Fin a) NInf = (if a = 0 then NaN else signed_inf (a < 0))"
| "mul_num PInf (Fin b) = (if b = 0 then NaN else signed_inf (0 < b))"
| "mul_num NInf (Fin b) = (if b = 0 then NaN else signed_inf (b < 0))"
| "mul_num PInf PInf = PInf"
| "mul_num NInf NInf = PInf"
| "mul_num PInf NInf = NInf"
| "mul_num NInf PInf = NInf"

fun div_num :: "cell \<Rightarrow> cell \<Rightarrow> cell" where
  "div_num (Fin a) (Fin b) =
     (if b = 0 then (if a = 0 then NaN else signed_inf (0 < a)) else Fin (a / b))"
| "div_num NaN _ = NaN"
| "div_num _ NaN = NaN"
| "div_num (Fin a) _ = Fin 0"
| "div_num PInf (Fin b) = signed_inf (0 \<le> b)"
| "div_num NInf (Fin b) = signed_inf (b < 0)"
| "div_num PInf _ = NaN"
| "div_num NInf _ = NaN"

fun abs_num :: "cell \<Rightarrow> cell" where
  "abs_num (Fin a) = Fin \<bar>a\<bar>"
| "abs_num NaN = NaN"
| "abs_num _ = PInf"

text \<open>Comparison: anything compared with NaN is false.\<close>

fun less_num :: "cell \<Rightarrow> cell \<Rightarrow> bool" where
  "less_num (Fin a) (Fin b) = (a < b)"
| "less_num NaN _ = False"
| "less_num _ NaN = False"
| "less_num NInf NInf = False"
| "less_num NInf _ = True"
| "less_num PInf _ = False"
| "less_num (Fin a) PInf = True"
| "less_num (Fin a) NInf = False"

subsection \<open>Rounding\<close>

text \<open>
  \<open>Series.round\<close> and \<open>DataFrame.round\<close> (also reached through the builtin \<open>round\<close>, which
  calls \<open>__round__\<close>) scale by a power of ten, round half to even, and scale back. A
  negative number of digits rounds to tens, hundreds and so on.
\<close>

definition round_half_even :: "rat \<Rightarrow> int" where
  "round_half_even q =
     (let f = \<lfloor>q\<rfloor>; d = q - of_int f
      in if d < 1 / 2 then f
         else if 1 / 2 < d then f + 1
         else if even f then f else f + 1)"

definition round_rat :: "int \<Rightarrow> rat \<Rightarrow> rat" where
  "round_rat ndigits q =
     (if 0 \<le> ndigits
      then of_int (round_half_even (q * 10 ^ nat ndigits)) / 10 ^ nat ndigits
      else of_int (round_half_even (q / 10 ^ nat (- ndigits))) * 10 ^ nat (- ndigits))"

fun round_num :: "int \<Rightarrow> cell \<Rightarrow> cell" where
  "round_num ndigits (Fin a) = Fin (round_rat ndigits a)"
| "round_num ndigits x = x"

subsection \<open>Sequence operations of pandas\<close>

definition fillna0 :: "cell \<Rightarrow> cell" where
  "fillna0 x = (if isna x then Fin 0 else x)"

text \<open>\<open>sum()\<close> skips nulls; the sum of no values is 0.\<close>

definition psum :: "cell list \<Rightarrow> cell" where
  "psum xs = foldl add_num (Fin 0) (filter (\<lambda>x. \<not> isna x) xs)"

text \<open>\<open>shift(1)\<close>: every value moves one position down, the first position becomes null.\<close>

definition shift1 :: "cell list \<Rightarrow> cell list" where
  "shift1 xs = take (length xs) (NaN # xs)"

text \<open>\<open>a.mask(cond)\<close>: null where the condition holds.\<close>

definition mask_where :: "cell list \<Rightarrow> bool list \<Rightarrow> cell list" where
  "mask_where xs cond = map2 (\<lambda>x c. if c then NaN else x) xs cond"

section \<open>Float64 arithmetic\<close>

text \<open>
  IEEE 754 binary64, round to nearest, ties to even. \<open>ilog2 q\<close> is the exponent of the
  leading bit of \<open>q\<close>: \<open>2 ^ ilog2 q \<le> \<bar>q\<bar> < 2 ^ (ilog2 q + 1)\<close>.
\<close>

definition ilog2 :: "rat \<Rightarrow> int" where
  "ilog2 q =
     (let (n, d) = quotient_of \<bar>q\<bar>; k = bitlen n - bitlen d
      in if 2 powi k \<le> \<bar>q\<bar> then k else k - 1)"

text \<open>
  Rounding to 53 significant bits: the spacing of the float64 values around \<open>q\<close> is
  \<open>2 ^ (ilog2 q - 52)\<close>, and \<open>2 ^ -1074\<close> in the subnormal range. A result of magnitude
  \<open>2 ^ 1024\<close> or more overflows to an infinity.
\<close>

definition scale_round :: "rat \<Rightarrow> rat \<Rightarrow> rat" where
  "scale_round p q = of_int (round_half_even (q / p)) * p"

definition fl_exp :: "int \<Rightarrow> rat \<Rightarrow> rat" where
  "fl_exp k q = scale_round (2 powi (max (k - 52) (- 1074))) q"

definition overflow :: "int \<Rightarrow> rat \<Rightarrow> rat \<Rightarrow> cell" where
  "overflow k q r =
     (if 1024 \<le> k then signed_inf (0 < q)
      else if k = 1023 then (if 2 powi 1024 \<le> \<bar>r\<bar> then signed_inf (0 < q) else Fin r)
      else Fin r)"

definition f64 :: "rat \<Rightarrow> cell" where
  "f64 q = (if q = 0 then Fin 0 else overflow (ilog2 q) q (fl_exp (ilog2 q) q))"

text \<open>An operation on float64 values is the exact operation followed by the rounding.\<close>

fun rnd :: "cell \<Rightarrow> cell" where
  "rnd (Fin q) = f64 q"
| "rnd x = x"

definition add_f64 :: "cell \<Rightarrow> cell \<Rightarrow> cell" where
  "add_f64 a b = rnd (add_num a b)"

definition sub_f64 :: "cell \<Rightarrow> cell \<Rightarrow> cell" where
  "sub_f64 a b = rnd (sub_num a b)"

definition mul_f64 :: "cell \<Rightarrow> cell \<Rightarrow> cell" where
  "mul_f64 a b = rnd (mul_num a b)"

definition div_f64 :: "cell \<Rightarrow> cell \<Rightarrow> cell" where
  "div_f64 a b = rnd (div_num a b)"

text \<open>
  \<open>Series.round(decimals)\<close> is numpy's: \<open>rint\<close> for 0 decimals; otherwise multiply by the
  power of ten, \<open>rint\<close>, divide (for negative decimals divide, \<open>rint\<close>, multiply), every
  step a float64 operation. The power of ten is the float64 nearest to it, which is the
  power itself up to \<open>10 ^ 22\<close>.
\<close>

fun rint :: "cell \<Rightarrow> cell" where
  "rint (Fin q) = Fin (of_int (round_half_even q))"
| "rint x = x"

definition round_f64 :: "int \<Rightarrow> cell \<Rightarrow> cell" where
  "round_f64 ndigits x =
     (if ndigits = 0 then rint x
      else if 0 < ndigits
      then div_f64 (rint (mul_f64 x (f64 (10 ^ nat ndigits)))) (f64 (10 ^ nat ndigits))
      else mul_f64 (rint (div_f64 x (f64 (10 ^ nat (- ndigits))))) (f64 (10 ^ nat (- ndigits))))"

text \<open>
  \<open>sum()\<close> and \<open>cumsum()\<close> skip nulls and add from left to right. (numpy adds eight or
  more values in another order, which can change the last bit of a sum.)
\<close>

definition psum_f64 :: "cell list \<Rightarrow> cell" where
  "psum_f64 xs = foldl add_f64 (Fin 0) (filter (\<lambda>x. \<not> isna x) xs)"

fun cumsum_f64_from :: "cell \<Rightarrow> cell list \<Rightarrow> cell list" where
  "cumsum_f64_from acc [] = []"
| "cumsum_f64_from acc (x # xs) =
     (if isna x then NaN # cumsum_f64_from acc xs
      else add_f64 acc x # cumsum_f64_from (add_f64 acc x) xs)"

definition cumsum_f64 :: "cell list \<Rightarrow> cell list" where
  "cumsum_f64 xs = cumsum_f64_from (Fin 0) xs"

section \<open>Apportioned rounding\<close>

text \<open>
  \<open>round_apportioned\<close> of \<open>transforms/percentages.py\<close>, on the values of a Series, in
  float64 arithmetic.
\<close>

definition round_apportioned :: "cell list \<Rightarrow> int \<Rightarrow> cell list" where
  "round_apportioned s ndigits =
     (if ndigits < 0 then s
      else
        let cumsum = map (round_f64 ndigits) (cumsum_f64 (map fillna0 s));
            prev_baseline = map fillna0 (shift1 cumsum);
            rounded = map2 sub_f64 cumsum prev_baseline;
            keep_na = mask_where rounded (map isna s)
        in keep_na)"

text \<open>
  The vocabulary of the statements: the cumulative sum of the first \<open>i\<close> entries, nulls
  counted as 0; and the sequences all of whose rounded cumulative sums are finite and at
  most \<open>2 ^ 52\<close> in absolute value, below which float64 adds and subtracts integers
  without error.
\<close>

definition prefix_f64 :: "cell list \<Rightarrow> nat \<Rightarrow> cell" where
  "prefix_f64 s i = foldl add_f64 (Fin 0) (map fillna0 (take i s))"

definition small_int_cell :: "cell \<Rightarrow> bool" where
  "small_int_cell x = (case x of Fin r \<Rightarrow> \<bar>r\<bar> \<le> 2 ^ 52 | _ \<Rightarrow> False)"

definition prefixes_small :: "cell list \<Rightarrow> bool" where
  "prefixes_small s = list_all (\<lambda>i. small_int_cell (rint (prefix_f64 s i))) [0..<Suc (length s)]"

text \<open>
  The same function written as one pass that carries the running sum and the previous
  baseline along. The proofs below go through this form.
\<close>

fun ra_g :: "int \<Rightarrow> cell \<Rightarrow> cell \<Rightarrow> cell list \<Rightarrow> cell list" where
  "ra_g nd prev acc [] = []"
| "ra_g nd prev acc (x # xs) =
     (if isna x then NaN else sub_f64 (round_f64 nd (add_f64 acc (fillna0 x))) prev)
       # ra_g nd (fillna0 (round_f64 nd (add_f64 acc (fillna0 x)))) (add_f64 acc (fillna0 x)) xs"

section \<open>Labels, indexes and tables\<close>

text \<open>
  An index key is a string or something else that is hashable; integers stand for the
  keys that are not strings. A flat index is a sequence of keys, a hierarchical one
  (\<open>pd.MultiIndex\<close>) a sequence of key tuples, one value per level.
\<close>

datatype key = StrKey string | IntKey int

datatype pd_index = Index "key list" | MultiIndex "key list list"

fun index_len :: "pd_index \<Rightarrow> nat" where
  "index_len (Index ks) = length ks"
| "index_len (MultiIndex ts) = length ts"

text \<open>Selection by a boolean mask, as \<open>.loc[mask]\<close> does.\<close>

definition select :: "bool list \<Rightarrow> 'a list \<Rightarrow> 'a list" where
  "select m xs = map snd (filter fst (zip m xs))"

fun index_select :: "bool list \<Rightarrow> pd_index \<Rightarrow> pd_index" where
  "index_select m (Index ks) = Index (select m ks)"
| "index_select m (MultiIndex ts) = MultiIndex (select m ts)"

text \<open>The Python slice \<open>xs[:-1]\<close>.\<close>

definition drop_last :: "'a list \<Rightarrow> 'a list" where
  "drop_last xs = take (length xs - 1) xs"

fun index_drop_last :: "pd_index \<Rightarrow> pd_index" where
  "index_drop_last (Index ks) = Index (drop_last ks)"
| "index_drop_last (MultiIndex ts) = MultiIndex (drop_last ts)"

text \<open>
  The margin-label metadata lives in \<open>attrs\<close>, a dictionary of dictionaries. Both paths
  that the code uses have three keys
  (\<open>attrs['flatbread']['labels'][transform]\<close> and
  \<open>attrs['flatbread']['totals']['ignore_keys']\<close>), so the model is a dictionary nested
  three deep whose leaves are collections of labels. The leaves are Python sets; the
  model keeps them as lists without duplicates, and nothing below depends on their order.
\<close>

type_synonym labels = "key list"
type_synonym attrs = "(string \<times> (string \<times> (string \<times> labels) list) list) list"

record dataframe =
  index :: pd_index
  columns :: pd_index
  cells :: "cell list list"
  attrs :: attrs

record series =
  sindex :: pd_index
  svalues :: "cell list"
  sname :: "string option"

definition nrows :: "dataframe \<Rightarrow> nat" where
  "nrows df = index_len (index df)"

definition ncols :: "dataframe \<Rightarrow> nat" where
  "ncols df = index_len (columns df)"

text \<open>A table is well formed when its cells are \<open>nrows\<close> rows of \<open>ncols\<close> cells each.\<close>

definition wf_df :: "dataframe \<Rightarrow> bool" where
  "wf_df df = (length (cells df) = nrows df \<and> list_all (\<lambda>r. length r = ncols df) (cells df))"

definition column :: "dataframe \<Rightarrow> nat \<Rightarrow> cell list" where
  "column df j = map (\<lambda>r. r ! j) (cells df)"

definition loc_rows :: "dataframe \<Rightarrow> bool list \<Rightarrow> dataframe" where
  "loc_rows df m = df\<lparr>index := index_select m (index df), cells := select m (cells df)\<rparr>"

definition loc_columns :: "dataframe \<Rightarrow> bool list \<Rightarrow> dataframe" where
  "loc_columns df m =
     df\<lparr>columns := index_select m (columns df), cells := map (select m) (cells df)\<rparr>"

definition transpose_df :: "dataframe \<Rightarrow> dataframe" where
  "transpose_df df =
     df\<lparr>index := columns df, columns := index df,
        cells := map (column df) [0..<ncols df]\<rparr>"

subsection \<open>Errors\<close>

text \<open>
  The exceptions the modelled code can raise. \<open>Unmodelled\<close> marks the inputs on which
  pandas does something this model does not follow: a label looked up in a hierarchical
  index, or a label that occurs more than once.
\<close>

datatype error = IndexError | KeyError | InvalidAxis | ValueError | Unmodelled

definition ebind :: "error + 'a \<Rightarrow> ('a \<Rightarrow> error + 'b) \<Rightarrow> error + 'b" where
  "ebind m f = (case m of Inl e \<Rightarrow> Inl e | Inr x \<Rightarrow> f x)"

subsection \<open>Axis resolver\<close>

datatype axis_sel = AxisInt int | AxisStr string

text \<open>
  Modelled from the spec: \<open>flatbread/axes.py\<close> (\<open>resolve_axis\<close>) is not among the source
  files. Section 4.1: the input is one of 0, 1, 2, "index", "columns", "both"; the output
  is 0, 1 or 2; anything else fails with an \<open>InvalidAxis\<close> error.
\<close>

definition resolve_axis :: "axis_sel \<Rightarrow> error + nat" where
  "resolve_axis a =
     (case a of
        AxisInt i \<Rightarrow> if i = 0 \<or> i = 1 \<or> i = 2 then Inr (nat i) else Inl InvalidAxis
      | AxisStr s \<Rightarrow>
          if s = ''index'' then Inr 0
          else if s = ''columns'' then Inr 1
          else if s = ''both'' then Inr 2
          else Inl InvalidAxis)"

section \<open>Data mask (\<open>chaining.py\<close>)\<close>

datatype ignore_keys = IgnoreNone | IgnoreStr string | IgnoreList "key list"

text \<open>The inner function \<open>should_keep\<close> of \<open>get_data_mask\<close>, with the list it closes over.\<close>

definition should_keep :: "key list \<Rightarrow> key \<Rightarrow> bool" where
  "should_keep ignore_keys v =
     (if v \<in> set ignore_keys then False
      else (case v of
              StrKey s \<Rightarrow>
                \<not> (\<exists>k \<in> set ignore_keys. case k of StrKey p \<Rightarrow> prefix p s | IntKey _ \<Rightarrow> False)
            | IntKey _ \<Rightarrow> True))"

fun mask_index :: "key list \<Rightarrow> pd_index \<Rightarrow> bool list" where
  "mask_index ks (MultiIndex ts) = map (list_all (should_keep ks)) ts"
| "mask_index ks (Index xs) = map (should_keep ks) xs"

fun get_data_mask :: "pd_index \<Rightarrow> ignore_keys \<Rightarrow> bool list" where
  "get_data_mask idx IgnoreNone = replicate (index_len idx) True"
| "get_data_mask idx (IgnoreStr s) = mask_index [StrKey s] idx"
| "get_data_mask idx (IgnoreList ks) = mask_index ks idx"

section \<open>Label tracker (\<open>chaining.py\<close>)\<close>

definition get3 :: "attrs \<Rightarrow> string \<Rightarrow> string \<Rightarrow> string \<Rightarrow> labels option" where
  "get3 a k1 k2 k3 =
     (case map_of a k1 of
        None \<Rightarrow> None
      | Some b \<Rightarrow> (case map_of b k2 of None \<Rightarrow> None | Some c \<Rightarrow> map_of c k3))"

text \<open>\<open>set_nested_key\<close>: missing dictionaries on the way are created.\<close>

definition set3 :: "attrs \<Rightarrow> string \<Rightarrow> string \<Rightarrow> string \<Rightarrow> labels \<Rightarrow> attrs" where
  "set3 a k1 k2 k3 v =
     (let b = (case map_of a k1 of None \<Rightarrow> [] | Some b \<Rightarrow> b);
          c = (case map_of b k2 of None \<Rightarrow> [] | Some c \<Rightarrow> c)
      in AList.update k1 (AList.update k2 (AList.update k3 v c) b) a)"

text \<open>\<open>get_nested_key\<close>: the empty set when a key on the way is missing.\<close>

definition get_nested_key :: "attrs \<Rightarrow> string \<Rightarrow> string \<Rightarrow> string \<Rightarrow> labels" where
  "get_nested_key a k1 k2 k3 = (case get3 a k1 k2 k3 of None \<Rightarrow> [] | Some ls \<Rightarrow> remdups ls)"

text \<open>
  The wrapper that \<open>tag_labels(transform)\<close> puts around a transform, applied to the
  transform's result. \<open>key_label_params\<close> is
  \<open>DEFAULTS['transforms'][transform]['key_labels']\<close>; the configuration is not among the
  source files, so it is a parameter. \<open>kwargs\<close> holds the keyword arguments of the call
  whose values are labels: a string, or \<open>None\<close>.
\<close>

definition labels_to_track :: "string list \<Rightarrow> (string \<times> string option) list \<Rightarrow> labels" where
  "labels_to_track key_label_params kwargs =
     concat (map (\<lambda>param_name.
                    case map_of kwargs param_name of
                      Some (Some v) \<Rightarrow> [StrKey v]
                    | _ \<Rightarrow> [])
                 key_label_params)"

definition tag_labels ::
  "string \<Rightarrow> string list \<Rightarrow> (string \<times> string option) list \<Rightarrow> dataframe \<Rightarrow> dataframe" where
  "tag_labels transform key_label_params kwargs result =
     (let existing_labels = get_nested_key (attrs result) ''flatbread'' ''labels'' transform;
          all_labels = remdups (existing_labels @ labels_to_track key_label_params kwargs)
      in result\<lparr>attrs := set3 (attrs result) ''flatbread'' ''labels'' transform all_labels\<rparr>)"

text \<open>\<open>data.attrs.get('flatbread', {}).get('labels', {})\<close>, then \<open>tracked.get(k, [])\<close>.\<close>

definition tracked :: "attrs \<Rightarrow> (string \<times> labels) list" where
  "tracked a =
     (case map_of a ''flatbread'' of
        None \<Rightarrow> []
      | Some b \<Rightarrow> (case map_of b ''labels'' of None \<Rightarrow> [] | Some c \<Rightarrow> c))"

definition tracked_get :: "attrs \<Rightarrow> string \<Rightarrow> labels" where
  "tracked_get a k = (case map_of (tracked a) k of None \<Rightarrow> [] | Some ls \<Rightarrow> ls)"

definition explicit_keys :: "ignore_keys \<Rightarrow> key list" where
  "explicit_keys ik =
     (case ik of IgnoreNone \<Rightarrow> [] | IgnoreStr s \<Rightarrow> [StrKey s] | IgnoreList ks \<Rightarrow> ks)"

section \<open>Values and totals (\<open>transforms/percentages.py\<close>)\<close>

text \<open>\<open>_resolve_ignored_keys\<close> of \<open>transforms/percentages.py\<close>.\<close>

definition resolve_ignored_keys_pct :: "dataframe \<Rightarrow> nat \<Rightarrow> ignore_keys \<Rightarrow> key list" where
  "resolve_ignored_keys_pct data axis ignore_keys =
     explicit_keys ignore_keys @ tracked_get (attrs data) ''percentage''"

text \<open>
  The totals of a split: a vector (a row or a column of the table, which keeps the labels
  of the axis it was taken from) or a scalar.
\<close>

datatype pd_totals = TotalsVec "cell list" | TotalsScalar cell

record ValuesAndTotals =
  vt_values :: dataframe
  vt_totals :: pd_totals
  vt_axis :: nat

text \<open>Positional access: \<open>iloc[:-1, :]\<close>, \<open>iloc[-1, :]\<close> and their column counterparts.\<close>

definition rows_but_last :: "dataframe \<Rightarrow> dataframe" where
  "rows_but_last df = df\<lparr>index := index_drop_last (index df), cells := drop_last (cells df)\<rparr>"

definition columns_but_last :: "dataframe \<Rightarrow> dataframe" where
  "columns_but_last df =
     df\<lparr>columns := index_drop_last (columns df), cells := map drop_last (cells df)\<rparr>"

definition last_row :: "dataframe \<Rightarrow> error + cell list" where
  "last_row df = (if nrows df = 0 then Inl IndexError else Inr (cells df ! (nrows df - 1)))"

definition last_column :: "dataframe \<Rightarrow> error + cell list" where
  "last_column df =
     (if ncols df = 0 then Inl IndexError else Inr (column df (ncols df - 1)))"

definition last_cell :: "dataframe \<Rightarrow> error + cell" where
  "last_cell df =
     (if nrows df = 0 \<or> ncols df = 0 then Inl IndexError
      else Inr (cells df ! (nrows df - 1) ! (ncols df - 1)))"

text \<open>
  Access by label: the position of a label in a flat index. A missing label is a
  \<open>KeyError\<close>.
\<close>

definition label_pos :: "pd_index \<Rightarrow> string \<Rightarrow> error + nat" where
  "label_pos idx l =
     (case idx of
        MultiIndex _ \<Rightarrow> Inl Unmodelled
      | Index ks \<Rightarrow>
          (case filter (\<lambda>i. ks ! i = StrKey l) [0..<length ks] of
             [] \<Rightarrow> Inl KeyError
           | [i] \<Rightarrow> Inr i
           | _ \<Rightarrow> Inl Unmodelled))"

definition all_but :: "nat \<Rightarrow> nat \<Rightarrow> bool list" where
  "all_but n i = map (\<lambda>k. k \<noteq> i) [0..<n]"

definition from_data :: "dataframe \<Rightarrow> axis_sel \<Rightarrow> string option \<Rightarrow> error + ValuesAndTotals" where
  "from_data data ax label_totals =
     ebind (resolve_axis ax) (\<lambda>axis_resolved.
       case label_totals of
         None \<Rightarrow>
           if axis_resolved = 0 then
             ebind (last_row data) (\<lambda>t.
               Inr \<lparr>vt_values = rows_but_last data, vt_totals = TotalsVec t, vt_axis = axis_resolved\<rparr>)
           else if axis_resolved = 1 then
             ebind (last_column data) (\<lambda>t.
               Inr \<lparr>vt_values = columns_but_last data, vt_totals = TotalsVec t, vt_axis = axis_resolved\<rparr>)
           else
             ebind (last_cell data) (\<lambda>t.
               Inr \<lparr>vt_values = columns_but_last (rows_but_last data), vt_totals = TotalsScalar t,
                    vt_axis = axis_resolved\<rparr>)
       | Some l \<Rightarrow>
           if axis_resolved = 0 then
             ebind (label_pos (index data) l) (\<lambda>i.
               Inr \<lparr>vt_values = loc_rows data (all_but (nrows data) i),
                    vt_totals = TotalsVec (cells data ! i), vt_axis = axis_resolved\<rparr>)
           else if axis_resolved = 1 then
             ebind (label_pos (columns data) l) (\<lambda>j.
               Inr \<lparr>vt_values = loc_columns data (all_but (ncols data) j),
                    vt_totals = TotalsVec (column data j), vt_axis = axis_resolved\<rparr>)
           else
             ebind (label_pos (index data) l) (\<lambda>i.
             ebind (label_pos (columns data) l) (\<lambda>j.
               Inr \<lparr>vt_values = loc_columns (loc_rows data (all_but (nrows data) i))
                               (all_but (ncols data) j),
                    vt_totals = TotalsScalar (cells data ! i ! j), vt_axis = axis_resolved\<rparr>)))"

definition tolerance :: cell where
  "tolerance = Fin (1 / 10 ^ 10)"

definition within_tolerance :: "cell \<Rightarrow> cell \<Rightarrow> bool" where
  "within_tolerance x t = less_num (abs_num (sub_num x t)) tolerance"

text \<open>\<open>df.sum(axis=0)\<close>: one sum per column; \<open>df.sum(axis=1)\<close>: one sum per row.\<close>

definition sum_axis0 :: "dataframe \<Rightarrow> cell list" where
  "sum_axis0 df = map (\<lambda>j. psum (column df j)) [0..<ncols df]"

definition sum_axis1 :: "dataframe \<Rightarrow> cell list" where
  "sum_axis1 df = map psum (cells df)"

text \<open>
  \<open>(abs(sums - totals) < tolerance).all()\<close>. The sums and a vector of totals carry the
  same labels, so the subtraction pairs them by position; a scalar is broadcast.
\<close>

definition all_within :: "cell list \<Rightarrow> pd_totals \<Rightarrow> bool" where
  "all_within xs tot =
     (case tot of
        TotalsVec ts \<Rightarrow> list_all (\<lambda>(x, t). within_tolerance x t) (zip xs ts)
      | TotalsScalar t \<Rightarrow> list_all (\<lambda>x. within_tolerance x t) xs)"

definition should_use_apportioned_rounding :: "ValuesAndTotals \<Rightarrow> bool" where
  "should_use_apportioned_rounding vt =
     (if vt_axis vt = 0 then all_within (sum_axis0 (vt_values vt)) (vt_totals vt)
      else if vt_axis vt = 1 then all_within (sum_axis1 (vt_values vt)) (vt_totals vt)
      else all_within [psum (sum_axis0 (vt_values vt))] (vt_totals vt))"

section \<open>Percentages (\<open>transforms/percentages.py\<close>)\<close>

text \<open>
  \<open>data.div(totals, axis=...)\<close>. A vector of totals taken for axis 0 is matched with the
  columns (\<open>div(axis=1)\<close>), one taken for axis 1 with the rows (\<open>div(axis=0)\<close>); a
  scalar divides every cell.
\<close>

definition div_totals :: "dataframe \<Rightarrow> pd_totals \<Rightarrow> nat \<Rightarrow> dataframe" where
  "div_totals data tot axis_resolved =
     data\<lparr>cells :=
       (case tot of
          TotalsScalar t \<Rightarrow> map (map (\<lambda>x. div_num x t)) (cells data)
        | TotalsVec ts \<Rightarrow>
            if axis_resolved = 0 then map (\<lambda>r. map2 div_num r ts) (cells data)
            else map2 (\<lambda>r t. map (\<lambda>x. div_num x t) r) (cells data) ts)\<rparr>"

definition mul_df :: "dataframe \<Rightarrow> int \<Rightarrow> dataframe" where
  "mul_df data base = data\<lparr>cells := map (map (\<lambda>x. mul_num x (Fin (of_int base)))) (cells data)\<rparr>"

definition round_df :: "dataframe \<Rightarrow> int \<Rightarrow> dataframe" where
  "round_df data ndigits = data\<lparr>cells := map (map (round_num ndigits)) (cells data)\<rparr>"

text \<open>
  \<open>round_apportioned\<close> handed a table: \<open>cumsum\<close> and \<open>shift\<close> run down the rows, so each
  column is rounded as a sequence of its own.
\<close>

definition round_apportioned_df :: "dataframe \<Rightarrow> int \<Rightarrow> dataframe" where
  "round_apportioned_df data ndigits =
     (let cols = map (\<lambda>j. round_apportioned (column data j) ndigits) [0..<ncols data]
      in data\<lparr>cells := map (\<lambda>i. map (\<lambda>c. c ! i) cols) [0..<length (cells data)]\<rparr>)"

text \<open>
  The DataFrame implementation of \<open>as_percentages\<close>, as the function body sees its
  arguments, that is after \<open>inject_defaults\<close> has filled in the ones the caller left out.
  The body hands the resolved axis to \<open>from_data\<close>, which resolves it once more.
\<close>

definition as_percentages_body ::
  "dataframe \<Rightarrow> axis_sel \<Rightarrow> string option \<Rightarrow> ignore_keys \<Rightarrow> int \<Rightarrow> int \<Rightarrow> bool option
     \<Rightarrow> error + dataframe" where
  "as_percentages_body df ax label_totals ignore_keys ndigits base apportioned_rounding =
     ebind (resolve_axis ax) (\<lambda>axis.
       let keys_to_ignore = resolve_ignored_keys_pct df axis ignore_keys;
           cols = get_data_mask (columns df) (IgnoreList keys_to_ignore);
           data = loc_columns df cols
       in ebind (from_data data (AxisInt (int axis)) label_totals) (\<lambda>vt.
            let pcts = mul_df (div_totals data (vt_totals vt) axis) base
            in if ndigits < 0 then Inr pcts
               else
                 let apportioned =
                       (case apportioned_rounding of
                          None \<Rightarrow> should_use_apportioned_rounding vt
                        | Some b \<Rightarrow> b)
                 in Inr (if apportioned then round_apportioned_df pcts ndigits
                         else round_df pcts ndigits)))"

text \<open>
  The function as registered, under \<open>tag_labels('percentages')\<close>. Of the keyword
  arguments only \<open>label_totals\<close> and the ones that end in \<open>**kwargs\<close> can hold a label; the
  latter are \<open>extra_kwargs\<close>.
\<close>

definition as_percentages ::
  "string list \<Rightarrow> (string \<times> string option) list \<Rightarrow>
   dataframe \<Rightarrow> axis_sel \<Rightarrow> string option \<Rightarrow> ignore_keys \<Rightarrow> int \<Rightarrow> int \<Rightarrow> bool option
     \<Rightarrow> error + dataframe" where
  "as_percentages key_label_params extra_kwargs df ax label_totals ignore_keys ndigits base
       apportioned_rounding =
     ebind (as_percentages_body df ax label_totals ignore_keys ndigits base apportioned_rounding)
       (\<lambda>result.
          Inr (tag_labels ''percentages'' key_label_params
                 ((''label_totals'', label_totals) # extra_kwargs) result))"

subsection \<open>The Series implementation\<close>

definition series_total :: "series \<Rightarrow> string option \<Rightarrow> error + cell" where
  "series_total data label_totals =
     (case label_totals of
        None \<Rightarrow>
          if svalues data = [] then Inl IndexError
          else Inr (svalues data ! (length (svalues data) - 1))
      | Some l \<Rightarrow> ebind (label_pos (sindex data) l) (\<lambda>i. Inr (svalues data ! i)))"

definition series_values :: "series \<Rightarrow> string option \<Rightarrow> error + cell list" where
  "series_values data label_totals =
     (case label_totals of
        None \<Rightarrow> Inr (drop_last (svalues data))
      | Some l \<Rightarrow>
          ebind (label_pos (sindex data) l) (\<lambda>i.
            Inr (select (all_but (length (svalues data)) i) (svalues data))))"

definition as_percentages_series ::
  "series \<Rightarrow> string \<Rightarrow> string option \<Rightarrow> int \<Rightarrow> int \<Rightarrow> bool option \<Rightarrow> error + series" where
  "as_percentages_series data label_pct label_totals ndigits base apportioned_rounding =
     ebind (series_total data label_totals) (\<lambda>total.
       let pcts = map (\<lambda>x. mul_num (div_num x total) (Fin (of_int base))) (svalues data)
       in if ndigits = - 1 then Inr (data\<lparr>svalues := pcts, sname := Some label_pct\<rparr>)
          else
            ebind (case apportioned_rounding of
                     None \<Rightarrow>
                       ebind (series_values data label_totals) (\<lambda>vs.
                         Inr (within_tolerance (psum vs) total))
                   | Some b \<Rightarrow> Inr b) (\<lambda>apportioned.
              Inr (data\<lparr>svalues := (if apportioned then round_apportioned pcts ndigits
                                      else map (round_num ndigits) pcts),
                        sname := Some label_pct\<rparr>)))"

section \<open>Totals (\<open>transforms/totals.py\<close>)\<close>

text \<open>\<open>_resolve_ignored_keys\<close> of \<open>transforms/totals.py\<close>.\<close>

definition resolve_ignored_keys_totals :: "dataframe \<Rightarrow> nat \<Rightarrow> ignore_keys \<Rightarrow> key list" where
  "resolve_ignored_keys_totals data axis ignore_keys =
     explicit_keys ignore_keys @ tracked_get (attrs data) ''totals''
       @ (if axis = 1
          then tracked_get (attrs data) ''percentages'' @ tracked_get (attrs data) ''differences''
          else [])"

text \<open>
  Modelled from the spec: the key that \<open>add_agg\<close> (not among the source files, see
  below) gives the row it adds. It is the label, filled up with \<open>_fill\<close> to the number
  of levels. The number of levels of a hierarchical index is read off its first tuple;
  for one without tuples the key is the label alone.
\<close>

fun margin_key :: "pd_index \<Rightarrow> string \<Rightarrow> string \<Rightarrow> key list" where
  "margin_key (Index ks) label fill = [StrKey label]"
| "margin_key (MultiIndex []) label fill = [StrKey label]"
| "margin_key (MultiIndex (t # ts)) label fill =
     StrKey label # replicate (length t - 1) (StrKey fill)"

fun index_mem :: "key list \<Rightarrow> pd_index \<Rightarrow> bool" where
  "index_mem k (Index ks) = (case k of [x] \<Rightarrow> x \<in> set ks | _ \<Rightarrow> False)"
| "index_mem k (MultiIndex ts) = (k \<in> set ts)"

fun index_append :: "pd_index \<Rightarrow> key list \<Rightarrow> pd_index" where
  "index_append (Index ks) k = Index (ks @ k)"
| "index_append (MultiIndex ts) k = MultiIndex (ts @ [k])"

text \<open>
  Modelled from the spec: \<open>flatbread/transforms/aggregation.py\<close> (\<open>add_agg\<close>) is not among
  the source files. Section 4.7: the sum aggregation appends one row (axis 0) or one
  column (axis 1) labelled \<open>label\<close> and excludes the ignored rows or columns from the sum;
  section 7: a label that collides with an existing index entry is a value error;
  section 9: axis 1 is axis 0 between two transpositions. Section 3 has every transform
  carry the metadata of its input forward. In a hierarchical index the new key is the
  label on the first level and \<open>_fill\<close> on the others.
\<close>

definition add_agg_rows :: "dataframe \<Rightarrow> string \<Rightarrow> key list \<Rightarrow> string \<Rightarrow> error + dataframe" where
  "add_agg_rows data label ignore_keys fill =
     (if index_mem (margin_key (index data) label fill) (index data) then Inl ValueError
      else
        let m = get_data_mask (index data) (IgnoreList ignore_keys);
            total_row = map (\<lambda>j. psum (select m (column data j))) [0..<ncols data]
        in Inr (data\<lparr>index := index_append (index data) (margin_key (index data) label fill),
                     cells := cells data @ [total_row]\<rparr>))"

definition add_agg :: "dataframe \<Rightarrow> nat \<Rightarrow> string \<Rightarrow> key list \<Rightarrow> string \<Rightarrow> error + dataframe" where
  "add_agg data axis label ignore_keys fill =
     (if axis = 0 then add_agg_rows data label ignore_keys fill
      else ebind (add_agg_rows (transpose_df data) label ignore_keys fill)
             (\<lambda>r. Inr (transpose_df r)))"

text \<open>
  \<open>add_totals\<close> for axis 0 or 1, with its decorators: the body calls \<open>add_agg\<close>, then
  \<open>tag_labels('totals')\<close> records the label. \<open>label\<close> is passed by keyword.
\<close>

definition add_totals_axis ::
  "string list \<Rightarrow> dataframe \<Rightarrow> nat \<Rightarrow> string \<Rightarrow> ignore_keys \<Rightarrow> string \<Rightarrow> error + dataframe" where
  "add_totals_axis key_label_params data axis label ignore_keys fill =
     (let keys_to_ignore = resolve_ignored_keys_totals data axis ignore_keys
      in ebind (add_agg data axis label keys_to_ignore fill) (\<lambda>output.
           Inr (tag_labels ''totals'' key_label_params [(''label'', Some label)] output)))"

text \<open>
  \<open>add_totals\<close>: axis 2 pipes the table through \<open>add_totals\<close> for axis 0 and then for
  axis 1, each time with the resolved keys as \<open>ignore_keys\<close>.
\<close>

definition add_totals ::
  "string list \<Rightarrow> dataframe \<Rightarrow> axis_sel \<Rightarrow> string \<Rightarrow> ignore_keys \<Rightarrow> string \<Rightarrow> error + dataframe" where
  "add_totals key_label_params data ax label ignore_keys fill =
     ebind (resolve_axis ax) (\<lambda>axis.
       if axis < 2 then add_totals_axis key_label_params data axis label ignore_keys fill
       else
         let keys_to_ignore = resolve_ignored_keys_totals data axis ignore_keys
         in ebind (add_totals_axis key_label_params data 0 label (IgnoreList keys_to_ignore) fill)
              (\<lambda>d0.
            ebind (add_totals_axis key_label_params d0 1 label (IgnoreList keys_to_ignore) fill)
              (\<lambda>output.
            Inr (tag_labels ''totals'' key_label_params [(''label'', Some label)] output))))"

definition drop_totals :: "dataframe \<Rightarrow> ignore_keys \<Rightarrow> error + dataframe" where
  "drop_totals data ignore_keys =
     ebind (case ignore_keys of
              IgnoreNone \<Rightarrow>
                (case get3 (attrs data) ''flatbread'' ''totals'' ''ignore_keys'' of
                   None \<Rightarrow> Inl KeyError
                 | Some ks \<Rightarrow> Inr (IgnoreList ks))
            | _ \<Rightarrow> Inr ignore_keys) (\<lambda>ik.
       Inr (loc_rows data (get_data_mask (index data) ik)))"

section \<open>The input after masking\<close>

text \<open>
  The table that \<open>as_percentages\<close> computes with: the columns of \<open>df\<close> that the data mask
  keeps (\<open>data\<close> in the body of the function).
\<close>

definition masked_input :: "dataframe \<Rightarrow> nat \<Rightarrow> ignore_keys \<Rightarrow> dataframe" where
  "masked_input df axis ignore_keys =
     loc_columns df
       (get_data_mask (columns df) (IgnoreList (resolve_ignored_keys_pct df axis ignore_keys)))"

section \<open>The matching rule in words\<close>

text \<open>
  A value matches a list of ignore keys when it equals one of them or, being a string,
  starts with one of them that is a string.
\<close>

definition label_matches :: "key list \<Rightarrow> key \<Rightarrow> bool" where
  "label_matches ks v =
     (v \<in> set ks \<or>
      (case v of
         StrKey s \<Rightarrow> (\<exists>k \<in> set ks. case k of StrKey p \<Rightarrow> prefix p s | IntKey _ \<Rightarrow> False)
       | IntKey _ \<Rightarrow> False))"

text \<open>
  The mask as section 3 of the specification words it: an entry of a flat index is a
  margin when its key equals a listed label; a tuple of a hierarchical index is a margin
  when every level's value matches.
\<close>

definition claimed_data_mask :: "pd_index \<Rightarrow> key list \<Rightarrow> bool list" where
  "claimed_data_mask idx ks =
     (case idx of
        Index xs \<Rightarrow> map (\<lambda>k. k \<notin> set ks) xs
      | MultiIndex ts \<Rightarrow> map (\<lambda>t. \<not> list_all (label_matches ks) t) ts)"

section \<open>Worked inputs\<close>




text \<open>The same table without its totals row.\<close>

definition plain_df :: dataframe where
  "plain_df =
     \<lparr>index = Index [IntKey 0, IntKey 1, IntKey 2],
      columns = Index [StrKey ''A'', StrKey ''B''],
      cells = [[Fin 10, Fin 15], [Fin 20, Fin 25], [Fin 30, Fin 20]],
      attrs = []\<rparr>"

text \<open>
  A table as \<open>add_percentages\<close> leaves it: the counts under \<open>n\<close>, the percentages of the
  column total under \<open>pct\<close>, and the label \<open>pct\<close> recorded by \<open>tag_labels('percentages')\<close>.
\<close>

definition chained_df :: dataframe where
  "chained_df =
     tag_labels ''percentages'' [''label_pct''] [(''label_pct'', Some ''pct'')]
       \<lparr>index = Index [IntKey 0, IntKey 1, StrKey ''Totals''],
        columns = MultiIndex [[StrKey ''n'', StrKey ''A''], [StrKey ''pct'', StrKey ''A'']],
        cells = [[Fin 10, Fin 25], [Fin 30, Fin 75], [Fin 40, Fin 100]],
        attrs = []\<rparr>"

text \<open>
  The table of \<open>TestApportionedRoundingBehavior\<close>: three rows of \<open>100/3\<close> and their totals.
\<close>

definition thirds_df :: dataframe where
  "thirds_df =
     \<lparr>index = Index [IntKey 0, IntKey 1, IntKey 2, StrKey ''Totals''],
      columns = Index [IntKey 0, StrKey ''Totals''],
      cells = [[Fin (100 / 3), Fin (100 / 3)], [Fin (100 / 3), Fin (100 / 3)],
               [Fin (100 / 3), Fin (100 / 3)], [Fin 100, Fin 100]],
      attrs = [(''flatbread'', [(''labels'', [(''totals'', [StrKey ''Totals''])])])]\<rparr>"

definition thirds_series :: series where
  "thirds_series =
     \<lparr>sindex = Index [IntKey 0, IntKey 1, IntKey 2, StrKey ''Totals''],
      svalues = [Fin (100 / 3), Fin (100 / 3), Fin (100 / 3), Fin 100],
      sname = None\<rparr>"

text \<open>A Series of two counts and their total.\<close>

definition counts_series :: series where
  "counts_series =
     \<lparr>sindex = Index [StrKey ''a'', StrKey ''b'', StrKey ''Totals''],
      svalues = [Fin 160, Fin 140, Fin 300],
      sname = None\<rparr>"

text \<open>A table with a data row whose label starts with the totals label.\<close>

definition prefixed_df :: dataframe where
  "prefixed_df =
     \<lparr>index = Index [StrKey ''Totals 2020'', StrKey ''x''],
      columns = Index [StrKey ''A''],
      cells = [[Fin 1], [Fin 2]],
      attrs = []\<rparr>"

section \<open>Properties of float64 rounding\<close>

lemma round_half_even_0: "round_half_even 0 = 0"
  by (simp add: round_half_even_def)

lemma pow2_pos: "0 < (2::rat) powi k"
  by (simp add: zero_less_power_int)

lemma pow2_le_iff: "(2::rat) powi a \<le> 2 powi b \<longleftrightarrow> a \<le> b"
proof
  assume le: "(2::rat) powi a \<le> 2 powi b"
  show "a \<le> b"
  proof (rule ccontr)
    assume "\<not> a \<le> b"
    then have "b < a" by simp
    then have "(2::rat) powi b < 2 powi a" by (rule power_int_strict_increasing) simp
    with le show False by simp
  qed
next
  assume "a \<le> b"
  then show "(2::rat) powi a \<le> 2 powi b" by (rule power_int_increasing) simp
qed

lemma pow2_nat: "0 \<le> k \<Longrightarrow> (2::rat) powi k = 2 ^ nat k"
  by (simp add: power_int_def)

lemma pow2_add: "(2::rat) powi (a + b) = 2 powi a * 2 powi b"
  by (simp add: power_int_add)

lemma pow2_diff: "(2::rat) powi (a - b) = 2 powi a / 2 powi b"
  by (simp add: power_int_diff)

lemma ilog2_bounds:
  assumes "q \<noteq> 0"
  shows "2 powi (ilog2 q) \<le> \<bar>q\<bar>" and "\<bar>q\<bar> < 2 powi (ilog2 q + 1)"
proof -
  obtain n d where nd: "quotient_of \<bar>q\<bar> = (n, d)" by (cases "quotient_of \<bar>q\<bar>")
  have dpos: "0 < d" by (rule quotient_of_denom_pos[OF nd])
  have qeq: "\<bar>q\<bar> = of_int n / of_int d" by (rule quotient_of_div[OF nd])
  from assms have "0 < \<bar>q\<bar>" by simp
  with qeq dpos have npos: "0 < n" by (simp add: zero_less_divide_iff)
  let ?bn = "bitlen n" and ?bd = "bitlen d"
  from bitlen_bounds[OF npos] have n1: "2 ^ nat (?bn - 1) \<le> n" and n2: "n < 2 ^ nat ?bn"
    by auto
  from bitlen_bounds[OF dpos] have d1: "2 ^ nat (?bd - 1) \<le> d" and d2: "d < 2 ^ nat ?bd"
    by auto
  have bn1: "1 \<le> ?bn" using npos bitlen_eq_zero_iff[of n] bitlen_nonneg[of n] by linarith
  have bd1: "1 \<le> ?bd" using dpos bitlen_eq_zero_iff[of d] bitlen_nonneg[of d] by linarith
  have rn1: "(2::rat) powi (?bn - 1) \<le> of_int n"
  proof -
    have "(2::rat) powi (?bn - 1) = of_int (2 ^ nat (?bn - 1))" using bn1 by (simp add: pow2_nat)
    also have "\<dots> \<le> of_int n" using n1 by (simp only: of_int_le_iff)
    finally show ?thesis .
  qed
  have rn2: "of_int n < (2::rat) powi ?bn"
  proof -
    have "(of_int n :: rat) < of_int (2 ^ nat ?bn)" using n2 by (simp only: of_int_less_iff)
    also have "\<dots> = 2 powi ?bn" using bn1 by (simp add: pow2_nat)
    finally show ?thesis .
  qed
  have rd1: "(2::rat) powi (?bd - 1) \<le> of_int d"
  proof -
    have "(2::rat) powi (?bd - 1) = of_int (2 ^ nat (?bd - 1))" using bd1 by (simp add: pow2_nat)
    also have "\<dots> \<le> of_int d" using d1 by (simp only: of_int_le_iff)
    finally show ?thesis .
  qed
  have rd2: "of_int d < (2::rat) powi ?bd"
  proof -
    have "(of_int d :: rat) < of_int (2 ^ nat ?bd)" using d2 by (simp only: of_int_less_iff)
    also have "\<dots> = 2 powi ?bd" using bd1 by (simp add: pow2_nat)
    finally show ?thesis .
  qed
  have up: "\<bar>q\<bar> < 2 powi (?bn - ?bd + 1)"
  proof -
    have "of_int n / of_int d < (2::rat) powi ?bn / 2 powi (?bd - 1)"
      by (rule frac_less) (use npos rn2 rd1 pow2_pos in auto)
    also have "\<dots> = 2 powi (?bn - (?bd - 1))" by (simp add: pow2_diff)
    finally show ?thesis by (simp add: qeq algebra_simps)
  qed
  have lo: "2 powi (?bn - ?bd - 1) < \<bar>q\<bar>"
  proof -
    have "(2::rat) powi (?bn - 1) / 2 powi ?bd < of_int n / of_int d"
      by (rule frac_less2) (use dpos rn1 rd2 pow2_pos in auto)
    moreover have "(2::rat) powi (?bn - 1) / 2 powi ?bd = 2 powi (?bn - 1 - ?bd)"
      by (simp add: pow2_diff)
    ultimately show ?thesis by (simp add: qeq algebra_simps)
  qed
  show "2 powi (ilog2 q) \<le> \<bar>q\<bar>"
    using lo by (auto simp: ilog2_def nd Let_def)
  show "\<bar>q\<bar> < 2 powi (ilog2 q + 1)"
    using up by (auto simp: ilog2_def nd Let_def)
qed

lemma rhe_of_int: "round_half_even (of_int n) = n"
  by (simp add: round_half_even_def)

lemma rhe_bounds: "\<lfloor>x\<rfloor> \<le> round_half_even x" "round_half_even x \<le> \<lceil>x\<rceil>"
proof -
  show "\<lfloor>x\<rfloor> \<le> round_half_even x" by (simp add: round_half_even_def Let_def)
  have "\<lfloor>x\<rfloor> + 1 \<le> \<lceil>x\<rceil>" if "\<not> x - of_int \<lfloor>x\<rfloor> < 1 / 2"
  proof -
    from that have "of_int \<lfloor>x\<rfloor> < x" by linarith
    then show ?thesis by linarith
  qed
  moreover have "\<lfloor>x\<rfloor> \<le> \<lceil>x\<rceil>" by linarith
  ultimately show "round_half_even x \<le> \<lceil>x\<rceil>"
    by (auto simp: round_half_even_def Let_def)
qed

lemma rhe_abs_le:
  assumes "\<bar>x\<bar> \<le> of_int N"
  shows "\<bar>round_half_even x\<bar> \<le> N"
proof -
  from assms have "x \<le> of_int N" "of_int (- N) \<le> x" by auto
  then have "\<lceil>x\<rceil> \<le> N" "- N \<le> \<lfloor>x\<rfloor>" by (simp_all add: ceiling_le le_floor_iff)
  with rhe_bounds[of x] show ?thesis by linarith
qed

lemma scale_round_int: "p \<noteq> 0 \<Longrightarrow> scale_round p (of_int j * p) = of_int j * p"
  by (simp add: scale_round_def rhe_of_int)

text \<open>A number with a mantissa of at most 53 bits and an exponent in range is not changed.\<close>

lemma fl_exp_exact:
  assumes m: "\<bar>m\<bar> \<le> 2 ^ 53" "m \<noteq> 0" and e: "- 1074 \<le> e"
  shows "fl_exp (ilog2 (of_int m * 2 powi e)) (of_int m * 2 powi e) = of_int m * 2 powi e"
proof -
  define q :: rat where "q = of_int m * 2 powi e"
  define k where "k = ilog2 q"
  define e' where "e' = max (k - 52) (- 1074)"
  have q0: "q \<noteq> 0" using m(2) pow2_pos[of e] by (simp add: q_def)
  have absq: "\<bar>q\<bar> = of_int \<bar>m\<bar> * 2 powi e"
    using pow2_pos[of e] by (simp add: q_def abs_mult)
  have "2 powi k \<le> \<bar>q\<bar>" unfolding k_def by (rule ilog2_bounds(1)[OF q0])
  also have "\<bar>q\<bar> \<le> 2 ^ 53 * 2 powi e"
  proof -
    have "(of_int \<bar>m\<bar> :: rat) \<le> of_int (2 ^ 53)" using m(1) by (simp only: of_int_le_iff)
    then show ?thesis unfolding absq using pow2_pos[of e] by (simp add: mult_right_mono)
  qed
  also have "\<dots> = 2 powi (53 + e)" by (simp add: pow2_add)
  finally have k: "k \<le> 53 + e" by (simp only: pow2_le_iff)
  with e have e'le: "e' \<le> e + 1" by (simp add: e'_def)
  have goal: "fl_exp k q = scale_round (2 powi e') q" by (simp add: fl_exp_def e'_def)
  have "scale_round (2 powi e') q = q"
  proof (cases "e' \<le> e")
    case True
    have "(2::rat) powi e = 2 powi (e - e') * 2 powi e'"
      by (simp add: pow2_add[symmetric])
    also have "(2::rat) powi (e - e') = of_int (2 ^ nat (e - e'))"
      using True by (simp add: pow2_nat)
    finally have "q = of_int (m * 2 ^ nat (e - e')) * 2 powi e'"
      by (simp add: q_def)
    then obtain j where "q = of_int j * 2 powi e'" ..
    then show ?thesis using scale_round_int[of "2 powi e'" j] pow2_pos[of e'] by simp
  next
    case False
    with e'le have e'eq: "e' = e + 1" by simp
    with e have "k = 53 + e" by (simp add: e'_def max_def split: if_splits)
    with ilog2_bounds(1)[OF q0] have "(2::rat) powi (53 + e) \<le> of_int \<bar>m\<bar> * 2 powi e"
      by (simp add: absq k_def)
    then have "(2::rat) ^ 53 * 2 powi e \<le> of_int \<bar>m\<bar> * 2 powi e" by (simp add: pow2_add)
    then have "(2::rat) ^ 53 \<le> of_int \<bar>m\<bar>" using pow2_pos[of e] by simp
    then have "(of_int (2 ^ 53) :: rat) \<le> of_int \<bar>m\<bar>" by simp
    then have "2 ^ 53 \<le> \<bar>m\<bar>" by (simp only: of_int_le_iff)
    with m(1) have "\<bar>m\<bar> = 2 ^ 53" by simp
    then have "m = 2 ^ 53 \<or> m = - (2 ^ 53)" by (simp add: abs_if split: if_splits)
    then have "m = 2 * (m div 2)" by (elim disjE) simp_all
    then have mm: "(of_int m :: rat) = of_int (m div 2) * 2"
      by (metis mult.commute of_int_mult of_int_numeral)
    have "q = of_int (m div 2) * 2 powi e'"
      by (simp add: q_def mm e'eq pow2_add)
    then show ?thesis using scale_round_int[of "2 powi e'" "m div 2"] pow2_pos[of e'] by simp
  qed
  with goal show ?thesis by (simp add: q_def k_def)
qed

lemma f64_0: "f64 0 = Fin 0"
  by (simp add: f64_def)

text \<open>Integers of at most 53 bits are float64 values.\<close>

lemma f64_of_int:
  assumes "\<bar>n\<bar> \<le> 2 ^ 53"
  shows "f64 (of_int n) = Fin (of_int n)"
proof (cases "n = 0")
  case True
  then show ?thesis by (simp add: f64_0)
next
  case False
  let ?q = "of_int n :: rat"
  have q: "?q = of_int n * 2 powi 0" by simp
  have ex: "fl_exp (ilog2 ?q) ?q = ?q"
    using fl_exp_exact[OF assms False, of 0] by simp
  have q0: "?q \<noteq> 0" using False by simp
  have "2 powi (ilog2 ?q) \<le> \<bar>?q\<bar>" by (rule ilog2_bounds(1)[OF q0])
  also have "\<bar>?q\<bar> \<le> 2 powi 53"
  proof -
    have "(of_int \<bar>n\<bar> :: rat) \<le> of_int (2 ^ 53)" using assms by (simp only: of_int_le_iff)
    then show ?thesis by simp
  qed
  finally have "ilog2 ?q \<le> 53" by (simp only: pow2_le_iff)
  then show ?thesis using False by (simp add: f64_def overflow_def ex)
qed

text \<open>The result of a rounding is a float64 value: rounding it again changes nothing.\<close>

lemma f64_idem:
  assumes "f64 q = Fin r"
  shows "f64 r = Fin r"
proof (cases "q = 0")
  case True
  with assms show ?thesis by (simp add: f64_0)
next
  case q0: False
  let ?k = "ilog2 q"
  let ?e = "max (?k - 52) (- 1074)"
  let ?m = "round_half_even (q / 2 powi ?e)"
  from assms q0 have k: "?k < 1024" and r: "r = fl_exp ?k q"
    and top: "?k = 1023 \<Longrightarrow> \<bar>r\<bar> < 2 powi 1024"
    by (auto simp: f64_def overflow_def signed_inf_def split: if_splits)
  have rm: "r = of_int ?m * 2 powi ?e" by (simp add: r fl_exp_def scale_round_def)
  have m53: "\<bar>?m\<bar> \<le> 2 ^ 53"
  proof (rule rhe_abs_le)
    have "\<bar>q\<bar> < 2 powi (?k + 1)" by (rule ilog2_bounds(2)[OF q0])
    also have "\<dots> \<le> 2 powi (53 + ?e)" by (simp add: pow2_le_iff)
    also have "\<dots> = 2 ^ 53 * 2 powi ?e" by (simp add: pow2_add)
    finally have "\<bar>q\<bar> / 2 powi ?e \<le> 2 ^ 53"
      using pow2_pos[of ?e] by (simp add: pos_divide_le_eq)
    then show "\<bar>q / 2 powi ?e\<bar> \<le> of_int (2 ^ 53)"
      using pow2_pos[of ?e] by (simp add: abs_divide)
  qed
  show ?thesis
  proof (cases "?m = 0")
    case True
    then show ?thesis by (simp add: rm f64_0)
  next
    case m0: False
    have e: "- 1074 \<le> ?e" by simp
    have ex: "fl_exp (ilog2 r) r = r"
      unfolding rm by (rule fl_exp_exact[OF m53 m0 e])
    have r0: "r \<noteq> 0" using m0 pow2_pos[of ?e] by (simp add: rm)
    have absr: "\<bar>r\<bar> \<le> 2 powi (53 + ?e)"
    proof -
      have "(of_int \<bar>?m\<bar> :: rat) \<le> of_int (2 ^ 53)" using m53 by (simp only: of_int_le_iff)
      then have "of_int \<bar>?m\<bar> * 2 powi ?e \<le> (2::rat) ^ 53 * 2 powi ?e"
        using pow2_pos[of ?e] by (simp add: mult_right_mono)
      then show ?thesis using pow2_pos[of ?e] by (simp add: rm abs_mult pow2_add)
    qed
    have kr: "ilog2 r \<le> 53 + ?e"
    proof -
      have "2 powi (ilog2 r) \<le> \<bar>r\<bar>" by (rule ilog2_bounds(1)[OF r0])
      also note absr
      finally show ?thesis by (simp only: pow2_le_iff)
    qed
    have small: "\<bar>r\<bar> < 2 powi 1024"
    proof (cases "?k = 1023")
      case True
      then show ?thesis by (rule top)
    next
      case False
      with k have "53 + ?e \<le> 1023" by simp
      then have "(2::rat) powi (53 + ?e) \<le> 2 powi 1023" by (simp only: pow2_le_iff)
      also have "\<dots> < 2 powi 1024" by (rule power_int_strict_increasing) simp_all
      finally show ?thesis using absr by simp
    qed
    have kr': "ilog2 r < 1024"
    proof (rule ccontr)
      assume "\<not> ilog2 r < 1024"
      then have "1024 \<le> ilog2 r" by simp
      then have "(2::rat) powi 1024 \<le> 2 powi (ilog2 r)" by (simp only: pow2_le_iff)
      also have "\<dots> \<le> \<bar>r\<bar>" by (rule ilog2_bounds(1)[OF r0])
      finally show False using small by simp
    qed
    show ?thesis using r0 kr' small by (simp add: f64_def overflow_def ex)
  qed
qed

lemma rnd_idem: "rnd (rnd x) = rnd x"
proof (cases x)
  case (Fin q)
  show ?thesis
  proof (cases "f64 q")
    case (Fin r)
    with f64_idem[OF this] \<open>x = Fin q\<close> show ?thesis by simp
  qed (simp_all add: \<open>x = Fin q\<close>)
qed simp_all

section \<open>Properties of apportioned rounding\<close>

lemma not_isna_fillna0: "\<not> isna (fillna0 x)"
  by (simp add: fillna0_def)

lemma ra_g_eq:
  "mask_where
     (map2 sub_f64 (map (round_f64 nd) (cumsum_f64_from acc (map fillna0 s)))
        (prev # map fillna0 (map (round_f64 nd) (cumsum_f64_from acc (map fillna0 s)))))
     (map isna s) = ra_g nd prev acc s"
proof (induction s arbitrary: acc prev)
  case Nil
  then show ?case by (simp add: mask_where_def)
next
  case (Cons x xs)
  show ?case
    using Cons.IH[of "add_f64 acc (fillna0 x)"
                     "fillna0 (round_f64 nd (add_f64 acc (fillna0 x)))"]
    by (simp add: not_isna_fillna0 mask_where_def)
qed

lemma zip_take_length: "zip xs (take (length xs) ys) = zip xs ys"
proof (induction xs arbitrary: ys)
  case Nil
  then show ?case by simp
next
  case (Cons x xs)
  then show ?case by (cases ys) auto
qed

lemma round_apportioned_ra_g:
  assumes "0 \<le> nd"
  shows "round_apportioned s nd = ra_g nd (Fin 0) (Fin 0) s"
  using ra_g_eq[of nd "Fin 0" s "Fin 0"] assms
  by (simp add: round_apportioned_def Let_def cumsum_f64_def shift1_def fillna0_def
      zip_take_length take_map[symmetric] del: take_map)

lemma length_ra_g: "length (ra_g nd prev acc s) = length s"
  by (induction s arbitrary: prev acc) auto

lemma nth_ra_g:
  "i < length s \<Longrightarrow>
   ra_g nd prev acc s ! i =
     (if isna (s ! i) then NaN
      else sub_f64 (round_f64 nd (foldl add_f64 acc (map fillna0 (take (Suc i) s))))
             (if i = 0 then prev
              else fillna0 (round_f64 nd (foldl add_f64 acc (map fillna0 (take i s))))))"
proof (induction s arbitrary: i prev acc)
  case Nil
  then show ?case by simp
next
  case (Cons x xs)
  show ?case
  proof (cases i)
    case 0
    then show ?thesis by simp
  next
    case (Suc j)
    with Cons.prems have j: "j < length xs" by simp
    show ?thesis
      using Cons.IH[OF j, of "fillna0 (round_f64 nd (add_f64 acc (fillna0 x)))"
                      "add_f64 acc (fillna0 x)"]
      by (cases j) (simp_all add: Suc)
  qed
qed

lemma small_int_cellD:
  assumes "small_int_cell (rint c)"
  obtains a where "c = Fin a" "\<bar>round_half_even a\<bar> \<le> 2 ^ 52"
proof -
  from assms obtain a where c: "c = Fin a" by (cases c) (auto simp: small_int_cell_def)
  with assms have "\<bar>of_int (round_half_even a) :: rat\<bar> \<le> of_int (2 ^ 52)"
    by (simp add: small_int_cell_def)
  then have "(of_int \<bar>round_half_even a\<bar> :: rat) \<le> of_int (2 ^ 52)" by simp
  then have "\<bar>round_half_even a\<bar> \<le> 2 ^ 52" by (simp only: of_int_le_iff)
  with c show ?thesis by (rule that)
qed

lemma sum_ra_g:
  assumes "rnd acc = acc"
    and "\<forall>j \<le> length s. small_int_cell (rint (foldl add_f64 acc (map fillna0 (take j s))))"
  shows "foldl add_f64 (rint acc) (filter (\<lambda>x. \<not> isna x) (ra_g 0 (rint acc) acc s))
         = rint (foldl add_f64 acc (map fillna0 s))"
  using assms
proof (induction s arbitrary: acc)
  case Nil
  then show ?case by simp
next
  case (Cons x xs)
  let ?c = "add_f64 acc (fillna0 x)"
  from Cons.prems(2) have "small_int_cell (rint (foldl add_f64 acc (map fillna0 (take 0 (x # xs)))))"
    by blast
  then have s0: "small_int_cell (rint acc)" by simp
  from Cons.prems(2) have "small_int_cell (rint (foldl add_f64 acc (map fillna0 (take 1 (x # xs)))))"
    by (metis One_nat_def Suc_leI length_Cons zero_less_Suc)
  then have s1: "small_int_cell (rint ?c)" by simp
  from s0 obtain a where a: "acc = Fin a" "\<bar>round_half_even a\<bar> \<le> 2 ^ 52"
    by (rule small_int_cellD)
  from s1 obtain c where c: "?c = Fin c" "\<bar>round_half_even c\<bar> \<le> 2 ^ 52"
    by (rule small_int_cellD)
  have rc: "rnd ?c = ?c" by (simp add: add_f64_def rnd_idem)
  have bound': "\<forall>j \<le> length xs.
      small_int_cell (rint (foldl add_f64 ?c (map fillna0 (take j xs))))"
  proof (intro allI impI)
    fix j assume "j \<le> length xs"
    then have "Suc j \<le> length (x # xs)" by simp
    with Cons.prems(2)
    have "small_int_cell (rint (foldl add_f64 acc (map fillna0 (take (Suc j) (x # xs)))))"
      by blast
    then show "small_int_cell (rint (foldl add_f64 ?c (map fillna0 (take j xs))))" by simp
  qed
  note IH = Cons.IH[OF rc bound']
  have r0: "round_f64 0 y = rint y" for y by (simp add: round_f64_def)
  have rc': "rint ?c = Fin (of_int (round_half_even c))" by (simp only: c rint.simps)
  have prev2: "fillna0 (rint ?c) = rint ?c"
    unfolding rc' by (simp add: fillna0_def)
  have prev: "fillna0 (round_f64 0 ?c) = rint ?c"
    unfolding r0 by (rule prev2)
  have fold: "foldl add_f64 acc (map fillna0 (x # xs)) = foldl add_f64 ?c (map fillna0 xs)"
    by simp
  show ?case
  proof (cases "isna x")
    case True
    then have ceq: "?c = acc"
      using Cons.prems(1) by (simp add: fillna0_def add_f64_def a)
    have "ra_g 0 (rint acc) acc (x # xs) = NaN # ra_g 0 (rint ?c) ?c xs"
      using True by (simp add: prev)
    then have "foldl add_f64 (rint acc) (filter (\<lambda>x. \<not> isna x) (ra_g 0 (rint acc) acc (x # xs)))
               = foldl add_f64 (rint acc) (filter (\<lambda>x. \<not> isna x) (ra_g 0 (rint ?c) ?c xs))"
      by simp
    also have "\<dots> = foldl add_f64 (rint ?c) (filter (\<lambda>x. \<not> isna x) (ra_g 0 (rint ?c) ?c xs))"
      by (simp only: ceq)
    also note IH
    finally show ?thesis by (simp only: fold)
  next
    case False
    let ?k = "round_half_even a" and ?k' = "round_half_even c"
    have d: "\<bar>?k' - ?k\<bar> \<le> 2 ^ 53" using a(2) c(2) by simp
    have ra: "rint acc = Fin (of_int ?k)" by (simp only: a rint.simps)
    have out: "sub_f64 (rint ?c) (rint acc) = Fin (of_int (?k' - ?k))"
      unfolding rc' ra using f64_of_int[OF d] by (simp add: sub_f64_def sub_num_def)
    have k'53: "\<bar>?k'\<bar> \<le> 2 ^ 53" using c(2) by simp
    have step: "add_f64 (rint acc) (Fin (of_int (?k' - ?k))) = rint ?c"
      unfolding rc' ra using f64_of_int[OF k'53] by (simp add: add_f64_def)
    have "ra_g 0 (rint acc) acc (x # xs)
          = Fin (of_int (?k' - ?k)) # ra_g 0 (rint ?c) ?c xs"
      using False by (simp add: r0 prev2 out)
    then have "foldl add_f64 (rint acc) (filter (\<lambda>x. \<not> isna x) (ra_g 0 (rint acc) acc (x # xs)))
               = foldl add_f64 (add_f64 (rint acc) (Fin (of_int (?k' - ?k))))
                   (filter (\<lambda>x. \<not> isna x) (ra_g 0 (rint ?c) ?c xs))"
      by simp
    also have "\<dots> = foldl add_f64 (rint ?c) (filter (\<lambda>x. \<not> isna x) (ra_g 0 (rint ?c) ?c xs))"
      by (simp only: step)
    also note IH
    finally show ?thesis by (simp only: fold)
  qed
qed

lemma filter_fillna0: "filter (\<lambda>x. \<not> isna x) (map fillna0 s) = map fillna0 s"
  by (induction s) (simp_all add: not_isna_fillna0)


text \<open>
  C1, as stated, fails in float64. For \<open>[116.66666666666667, 133.0]\<close> and two digits the
  output is \<open>[116.67, 133.0]\<close>, which sums to \<open>249.67000000000002\<close>, and the rounded sum of
  the input is \<open>249.67\<close>. For \<open>[3.25, 14636698788954114.0]\<close> and no digits the output sums
  to \<open>14636698788954120\<close> and the rounded sum of the input is \<open>14636698788954118\<close>.
\<close>

theorem round_apportioned_sum_counterexample:
  "psum_f64 (round_apportioned [f64 (11666666666666667 / 10 ^ 14), Fin 133] 2)
     = f64 (24967000000000002 / 10 ^ 14)
   \<and> round_f64 2 (psum_f64 (map fillna0 [f64 (11666666666666667 / 10 ^ 14), Fin 133]))
     = f64 (24967 / 100)
   \<and> f64 (24967000000000002 / 10 ^ 14) \<noteq> f64 (24967 / 100)
   \<and> psum_f64 (round_apportioned [Fin (13 / 4), Fin 14636698788954114] 0)
     = Fin 14636698788954120
   \<and> round_f64 0 (psum_f64 (map fillna0 [Fin (13 / 4), Fin 14636698788954114]))
     = Fin 14636698788954118"
  by code_simp


text \<open>
  C1, amended. For every sequence \<open>s\<close> and \<open>ndigits \<ge> 0\<close> the result is as long as \<open>s\<close>,
  null exactly where \<open>s\<close> is null, and everywhere else the float64 difference of the
  rounded cumulative sum at that position and the previous baseline: 0 at the first
  position, afterwards the rounded cumulative sum before that position (0 in its place
  if it is null). For \<open>ndigits = 0\<close> and a sequence whose rounded cumulative sums are all
  finite and at most \<open>2 ^ 52\<close> in absolute value, the entries that are not null sum to
  the rounded sum of \<open>s\<close> (nulls counted as 0), exactly.
\<close>

theorem round_apportioned_differences:
  assumes "0 \<le> ndigits"
  shows "length (round_apportioned s ndigits) = length s
       \<and> (\<forall>i < length s.
            round_apportioned s ndigits ! i =
              (if isna (s ! i) then NaN
               else sub_f64 (round_f64 ndigits (prefix_f64 s (Suc i)))
                      (if i = 0 then Fin 0
                       else fillna0 (round_f64 ndigits (prefix_f64 s i)))))
       \<and> (ndigits = 0 \<and> prefixes_small s \<longrightarrow>
            psum_f64 (round_apportioned s 0) = round_f64 0 (psum_f64 (map fillna0 s)))"
proof (intro conjI)
  have eq: "round_apportioned s ndigits = ra_g ndigits (Fin 0) (Fin 0) s"
    by (rule round_apportioned_ra_g[OF assms])
  show "length (round_apportioned s ndigits) = length s"
    by (simp add: eq length_ra_g)
  show "\<forall>i < length s.
            round_apportioned s ndigits ! i =
              (if isna (s ! i) then NaN
               else sub_f64 (round_f64 ndigits (prefix_f64 s (Suc i)))
                      (if i = 0 then Fin 0
                       else fillna0 (round_f64 ndigits (prefix_f64 s i))))"
    unfolding eq prefix_f64_def using nth_ra_g[of _ s ndigits "Fin 0" "Fin 0"] by blast
  show "ndigits = 0 \<and> prefixes_small s \<longrightarrow>
            psum_f64 (round_apportioned s 0) = round_f64 0 (psum_f64 (map fillna0 s))"
  proof
    assume h: "ndigits = 0 \<and> prefixes_small s"
    then have b: "\<forall>j \<le> length s.
        small_int_cell (rint (foldl add_f64 (Fin 0) (map fillna0 (take j s))))"
      by (auto simp: prefixes_small_def list_all_iff prefix_f64_def)
    have r0: "rnd (Fin 0) = Fin 0" by (simp add: f64_0)
    from sum_ra_g[OF r0 b]
    have "foldl add_f64 (Fin 0) (filter (\<lambda>x. \<not> isna x) (ra_g 0 (Fin 0) (Fin 0) s))
          = rint (foldl add_f64 (Fin 0) (map fillna0 s))"
      by (simp add: round_half_even_0)
    then show "psum_f64 (round_apportioned s 0) = round_f64 0 (psum_f64 (map fillna0 s))"
      by (simp add: psum_f64_def round_apportioned_ra_g round_f64_def filter_fillna0)
  qed
qed

theorem round_apportioned_differences_witness:
  "prefixes_small [f64 (100 / 3), NaN, f64 (100 / 3), f64 (100 / 3)]
   \<and> round_apportioned [f64 (100 / 3), NaN, f64 (100 / 3), f64 (100 / 3)] 0
       = [Fin 33, NaN, Fin 34, Fin 33]
   \<and> psum_f64 (round_apportioned [f64 (100 / 3), NaN, f64 (100 / 3), f64 (100 / 3)] 0)
       = Fin 100"
proof -
  let ?s = "[f64 (100 / 3), NaN, f64 (100 / 3), f64 (100 / 3)]"
  have h: "prefixes_small ?s" by code_simp
  have v: "round_apportioned ?s 0 = [Fin 33, NaN, Fin 34, Fin 33]" by code_simp
  have r: "round_f64 0 (psum_f64 (map fillna0 ?s)) = Fin 100" by code_simp
  from round_apportioned_differences[of 0 ?s] h
  have "psum_f64 (round_apportioned ?s 0) = round_f64 0 (psum_f64 (map fillna0 ?s))"
    by simp
  with r h v show ?thesis by simp
qed

section \<open>Properties of the split into values and totals\<close>



lemma drop_last_butlast: "drop_last xs = butlast xs"
  by (simp add: drop_last_def butlast_conv_take)

lemma index_drop_last_cases:
  "index_drop_last idx =
     (case idx of Index ks \<Rightarrow> Index (butlast ks) | MultiIndex ts \<Rightarrow> MultiIndex (butlast ts))"
  by (cases idx) (simp_all add: drop_last_butlast)










lemma resolve_axis_range: "resolve_axis ax = Inr a \<Longrightarrow> a = 0 \<or> a = 1 \<or> a = 2"
  by (cases ax) (auto simp: resolve_axis_def split: if_splits)








section \<open>Properties of the data mask\<close>

lemma should_keep_matches: "should_keep ks v = (\<not> label_matches ks v)"
  by (cases v) (auto simp: should_keep_def label_matches_def)

lemma length_get_data_mask: "length (get_data_mask idx ik) = index_len idx"
  by (cases idx; cases ik) simp_all

text \<open>
  C3, as stated, fails. The claim has a flat entry be a margin only when its key equals
  a listed label, and a tuple only when every level matches. The code applies the prefix
  rule to a flat index too, and takes a tuple for a margin as soon as one level matches.
\<close>

theorem get_data_mask_counterexample:
  "get_data_mask (Index [StrKey ''Subtotals Region_A'']) (IgnoreList [StrKey ''Subtotals'']) = [False]
   \<and> claimed_data_mask (Index [StrKey ''Subtotals Region_A'']) [StrKey ''Subtotals''] = [True]
   \<and> get_data_mask (MultiIndex [[StrKey ''Totals'', StrKey ''A'']]) (IgnoreList [StrKey ''Totals''])
       = [False]
   \<and> claimed_data_mask (MultiIndex [[StrKey ''Totals'', StrKey ''A'']]) [StrKey ''Totals''] = [True]"
  by code_simp

text \<open>
  C3, amended. Without ignore keys every entry is data. With ignore keys, an entry of a
  flat index is a margin exactly when its key matches (it equals a listed label or, being
  a string, starts with a listed string), and a tuple of a hierarchical index is a margin
  exactly when at least one of its levels matches. A single string is a list of one key.
\<close>

theorem get_data_mask_rule:
  "get_data_mask idx IgnoreNone = replicate (index_len idx) True
   \<and> get_data_mask idx (IgnoreStr s) = get_data_mask idx (IgnoreList [StrKey s])
   \<and> get_data_mask (Index xs) (IgnoreList ks) = map (\<lambda>k. \<not> label_matches ks k) xs
   \<and> get_data_mask (MultiIndex ts) (IgnoreList ks)
       = map (\<lambda>t. \<not> (\<exists>v \<in> set t. label_matches ks v)) ts"
  by (simp add: should_keep_matches list_all_iff)

theorem get_data_mask_rule_witness:
  "get_data_mask (Index [StrKey ''A'', StrKey ''Subtotals Region_A'', IntKey 3, StrKey ''Totals''])
     (IgnoreList [StrKey ''Subtotals'', StrKey ''Totals'']) = [True, False, True, False]
   \<and> get_data_mask (MultiIndex [[StrKey ''Totals'', StrKey ''A''], [StrKey ''x'', StrKey ''A'']])
       (IgnoreList [StrKey ''Totals'']) = [False, True]"
proof -
  have a: "map (\<lambda>k. \<not> label_matches [StrKey ''Subtotals'', StrKey ''Totals''] k)
             [StrKey ''A'', StrKey ''Subtotals Region_A'', IntKey 3, StrKey ''Totals'']
           = [True, False, True, False]"
    by code_simp
  have b: "map (\<lambda>t. \<not> (\<exists>v \<in> set t. label_matches [StrKey ''Totals''] v))
             [[StrKey ''Totals'', StrKey ''A''], [StrKey ''x'', StrKey ''A'']] = [False, True]"
    by code_simp
  have r1: "get_data_mask (Index [StrKey ''A'', StrKey ''Subtotals Region_A'', IntKey 3, StrKey ''Totals''])
              (IgnoreList [StrKey ''Subtotals'', StrKey ''Totals''])
            = map (\<lambda>k. \<not> label_matches [StrKey ''Subtotals'', StrKey ''Totals''] k)
                [StrKey ''A'', StrKey ''Subtotals Region_A'', IntKey 3, StrKey ''Totals'']"
    using get_data_mask_rule by blast
  have r2: "get_data_mask (MultiIndex [[StrKey ''Totals'', StrKey ''A''], [StrKey ''x'', StrKey ''A'']])
              (IgnoreList [StrKey ''Totals''])
            = map (\<lambda>t. \<not> (\<exists>v \<in> set t. label_matches [StrKey ''Totals''] v))
                [[StrKey ''Totals'', StrKey ''A''], [StrKey ''x'', StrKey ''A'']]"
    using get_data_mask_rule by blast
  show ?thesis
    by (rule conjI[OF trans[OF r1 a] trans[OF r2 b]])
qed

section \<open>Properties of the percentages\<close>









lemma attrs_only_tag:
  "index (tag_labels t kl kw r) = index r"
  "columns (tag_labels t kl kw r) = columns r"
  "cells (tag_labels t kl kw r) = cells r"
  by (simp_all add: tag_labels_def Let_def)



text \<open>
  For the table implementation no negative \<open>ndigits\<close> rounds; for the Series
  implementation \<open>ndigits = -1\<close> does not.
\<close>

lemma as_percentages_body_unrounded:
  assumes "ndigits < 0"
  shows "as_percentages_body df ax label_totals ignore_keys ndigits base apportioned_rounding
         = ebind (resolve_axis ax) (\<lambda>axis.
             ebind (from_data (masked_input df axis ignore_keys) (AxisInt (int axis)) label_totals)
               (\<lambda>vt.
               Inr (mul_df (div_totals (masked_input df axis ignore_keys) (vt_totals vt) axis)
                      base)))"
  using assms by (simp add: as_percentages_body_def masked_input_def Let_def)

lemma as_percentages_series_unrounded:
  "as_percentages_series data label_pct label_totals (- 1) base apportioned_rounding
   = ebind (series_total data label_totals) (\<lambda>total.
       Inr (data\<lparr>svalues := map (\<lambda>x. mul_num (div_num x total) (Fin (of_int base)))
                                (svalues data),
                 sname := Some label_pct\<rparr>))"
  by (simp add: as_percentages_series_def Let_def)

text \<open>
  C8 fails for the Series implementation, which tests \<open>ndigits == -1\<close> where the table
  implementation tests \<open>ndigits < 0\<close>: with \<open>ndigits = -2\<close> and \<open>apportioned_rounding=False\<close>
  the percentages 53.33, 46.67 and 100 of \<open>counts_series\<close> are rounded to hundreds.
\<close>

theorem as_percentages_series_rounds_negative_ndigits:
  "map_sum id svalues (as_percentages_series counts_series ''pct'' None (- 2) 100 (Some False))
     = Inr [Fin 100, Fin 0, Fin 100]
   \<and> map_sum id svalues (as_percentages_series counts_series ''pct'' None (- 1) 100 (Some False))
     = Inr [Fin (160 / 3), Fin (140 / 3), Fin 100]"
  by code_simp

text \<open>
  C9. Three values \<open>100/3\<close> and their total, with \<open>base = 100\<close>, \<open>ndigits = 0\<close> and
  \<open>apportioned_rounding=False\<close>: each of the three percentages is rounded to 33 and they
  sum to 99, for the table of the test and for the same numbers as a Series.
\<close>

theorem unapportioned_thirds_sum_to_99:
  "map_sum id (\<lambda>r. (take 3 (column r 0), psum (take 3 (column r 0))))
     (as_percentages [''label_pct''] [(''label_pct'', Some ''pct'')] thirds_df
        (AxisInt 0) None IgnoreNone 0 100 (Some False))
     = Inr ([Fin 33, Fin 33, Fin 33], Fin 99)
   \<and> map_sum id (\<lambda>r. (take 3 (svalues r), psum (take 3 (svalues r))))
       (as_percentages_series thirds_series ''pct'' None 0 100 (Some False))
     = Inr ([Fin 33, Fin 33, Fin 33], Fin 99)"
  by code_simp

lemma tracked_get_tagged_other:
  "k \<noteq> t \<Longrightarrow>
   tracked_get (attrs (tag_labels t key_label_params kwargs r)) k = tracked_get (attrs r) k"
  by (simp add: tracked_get_def tracked_def tag_labels_def set3_def Let_def update_conv'
      split: option.splits)

lemma resolve_ignored_keys_pct_ignores_tracked:
  "resolve_ignored_keys_pct (tag_labels ''percentages'' key_label_params kwargs r) axis ignore_keys
   = resolve_ignored_keys_pct r axis ignore_keys"
  by (simp add: resolve_ignored_keys_pct_def tracked_get_tagged_other)

text \<open>
  C5 fails: \<open>_resolve_ignored_keys\<close> looks the tracked labels up under \<open>'percentage'\<close>,
  \<open>tag_labels('percentages')\<close> stores them under \<open>'percentages'\<close>. On \<open>chained_df\<close>, whose
  metadata tracks \<open>pct\<close>, no key is resolved and the \<open>pct\<close> column takes part in the
  division; it is left out only when \<open>pct\<close> is passed as \<open>ignore_keys\<close>.
\<close>

theorem as_percentages_tracked_not_excluded:
  "tracked_get (attrs chained_df) ''percentages'' = [StrKey ''pct'']
   \<and> resolve_ignored_keys_pct chained_df 0 IgnoreNone = []
   \<and> map_sum id (\<lambda>r. (columns r, cells r))
        (as_percentages [''label_pct''] [(''label_pct'', Some ''pct'')] chained_df
           (AxisInt 0) None IgnoreNone (- 1) 100 None)
       = Inr (MultiIndex [[StrKey ''n'', StrKey ''A''], [StrKey ''pct'', StrKey ''A'']],
              [[Fin 25, Fin 25], [Fin 75, Fin 75], [Fin 100, Fin 100]])
   \<and> map_sum id (\<lambda>r. (columns r, cells r))
        (as_percentages [''label_pct''] [(''label_pct'', Some ''pct'')] chained_df
           (AxisInt 0) None (IgnoreStr ''pct'') (- 1) 100 None)
       = Inr (MultiIndex [[StrKey ''n'', StrKey ''A'']], [[Fin 25], [Fin 75], [Fin 100]])"
  by code_simp

section \<open>Properties of the totals\<close>

lemma get3_set3_other:
  "k2 \<noteq> k2' \<Longrightarrow> get3 (set3 a k1 k2 k3 v) k1 k2' k3' = get3 a k1 k2' k3'"
  by (simp add: get3_def set3_def Let_def update_conv' split: option.splits)

lemma drop_totals_tagged_KeyError:
  assumes "get3 (attrs r) ''flatbread'' ''totals'' ''ignore_keys'' = None"
  shows "drop_totals (tag_labels ''totals'' key_label_params kwargs r) IgnoreNone = Inl KeyError"
  using assms
  by (simp add: drop_totals_def tag_labels_def Let_def ebind_def get3_set3_other)

text \<open>
  C6 fails: \<open>add_totals\<close> records its label under
  \<open>attrs['flatbread']['labels']['totals']\<close>, \<open>drop_totals\<close> without \<open>ignore_keys\<close> reads
  \<open>attrs['flatbread']['totals']['ignore_keys']\<close> and raises \<open>KeyError\<close>.
\<close>

theorem drop_totals_after_add_totals:
  "map_sum id attrs (add_totals [''label''] plain_df (AxisInt 0) ''Totals'' IgnoreNone '''')
     = Inr [(''flatbread'', [(''labels'', [(''totals'', [StrKey ''Totals''])])])]
   \<and> ebind (add_totals [''label''] plain_df (AxisInt 0) ''Totals'' IgnoreNone '''')
        (\<lambda>d. drop_totals d IgnoreNone) = Inl KeyError"
  by code_simp

lemma select_append:
  "length m = length xs \<Longrightarrow> select (m @ m') (xs @ ys) = select m xs @ select m' ys"
  by (simp add: select_def)

lemma select_all_True: "select (replicate (length xs) True) xs = xs"
  by (induction xs) (simp_all add: select_def)

lemma select_False: "select [False] [x] = []"
  by (simp add: select_def)

lemma select_map: "select m (map f xs) = map f (select m xs)"
proof (induction m arbitrary: xs)
  case Nil
  then show ?case by (simp add: select_def)
next
  case (Cons b m)
  then show ?case by (cases xs) (simp_all add: select_def)
qed

lemma not_keep_label: "\<not> should_keep [StrKey l] (StrKey l)"
  by (simp add: should_keep_def)

lemma not_keep_margin_key: "\<not> list_all (should_keep [StrKey l]) (margin_key idx l fill)"
  by (induction idx l fill rule: margin_key.induct) (simp_all add: not_keep_label)

lemma mask_index_append:
  "mask_index [StrKey l] (index_append idx (margin_key idx l fill))
   = mask_index [StrKey l] idx @ [False]"
proof (cases idx)
  case (Index ks)
  then show ?thesis by (simp add: not_keep_label)
next
  case (MultiIndex ts)
  with not_keep_margin_key[of l idx fill] show ?thesis by simp
qed

lemma length_mask_index: "length (mask_index ks idx) = index_len idx"
  by (cases idx) simp_all

lemma no_conflict:
  assumes "mask_index [StrKey l] idx = replicate (index_len idx) True"
  shows "\<not> index_mem (margin_key idx l fill) idx"
proof
  assume m: "index_mem (margin_key idx l fill) idx"
  show False
  proof (cases idx)
    case (Index ks)
    with m have "StrKey l \<in> set ks" by simp
    then have "should_keep [StrKey l] (StrKey l) \<in> set (map (should_keep [StrKey l]) ks)"
      by simp
    moreover from assms Index have "set (map (should_keep [StrKey l]) ks) \<subseteq> {True}"
      by auto
    ultimately show False using not_keep_label[of l] by auto
  next
    case (MultiIndex ts)
    with m have "margin_key idx l fill \<in> set ts" by simp
    then have "list_all (should_keep [StrKey l]) (margin_key idx l fill)
                 \<in> set (map (list_all (should_keep [StrKey l])) ts)"
      by simp
    moreover from assms MultiIndex
    have "set (map (list_all (should_keep [StrKey l])) ts) \<subseteq> {True}"
      by auto
    ultimately show False using not_keep_margin_key[of l idx fill] by auto
  qed
qed

lemma index_select_append:
  "length m = index_len idx \<Longrightarrow>
   index_select (m @ [False]) (index_append idx (margin_key idx l fill)) = index_select m idx"
  by (cases idx) (simp_all add: select_append select_False)

lemma index_select_all_True: "index_select (replicate (index_len idx) True) idx = idx"
  by (cases idx) (simp_all add: select_all_True)

text \<open>What \<open>add_agg\<close> for the rows returns.\<close>

lemma add_agg_rows_result:
  assumes "add_agg_rows data l ks fill = Inr r"
  shows "index r = index_append (index data) (margin_key (index data) l fill)"
    and "columns r = columns data"
    and "\<exists>row. cells r = cells data @ [row] \<and> length row = ncols data"
    and "attrs r = attrs data"
  using assms by (auto simp: add_agg_rows_def Let_def split: if_splits)

lemma add_agg_rows_succeeds:
  assumes "\<not> index_mem (margin_key (index data) l fill) (index data)"
  shows "\<exists>r. add_agg_rows data l ks fill = Inr r"
  using assms by (simp add: add_agg_rows_def Let_def)

lemma drop_totals_explicit:
  "drop_totals d (IgnoreStr l) = Inr (loc_rows d (mask_index [StrKey l] (index d)))"
  by (simp add: drop_totals_def ebind_def)

lemma round_trip_rows:
  assumes wf: "wf_df T"
    and nomatch: "get_data_mask (index T) (IgnoreStr L) = replicate (nrows T) True"
  shows "\<exists>R R'. add_totals key_label_params T (AxisInt 0) L ignore_keys fill = Inr R
            \<and> drop_totals R (IgnoreStr L) = Inr R'
            \<and> index R' = index T \<and> columns R' = columns T \<and> cells R' = cells T"
proof -
  let ?keys = "resolve_ignored_keys_totals T 0 ignore_keys"
  from nomatch have nm: "mask_index [StrKey L] (index T) = replicate (index_len (index T)) True"
    by (simp add: nrows_def)
  from no_conflict[OF nm] obtain r where r: "add_agg_rows T L ?keys fill = Inr r"
    using add_agg_rows_succeeds by blast
  from add_agg_rows_result[OF r] obtain row where
    ir: "index r = index_append (index T) (margin_key (index T) L fill)"
    and cr: "columns r = columns T" and cells_r: "cells r = cells T @ [row]"
    by blast
  let ?R = "tag_labels ''totals'' key_label_params [(''label'', Some L)] r"
  have R: "add_totals key_label_params T (AxisInt 0) L ignore_keys fill = Inr ?R"
    using r by (simp add: add_totals_def add_totals_axis_def add_agg_def resolve_axis_def
        ebind_def Let_def)
  let ?m = "mask_index [StrKey L] (index ?R)"
  have m: "?m = replicate (length (cells T)) True @ [False]"
    using wf nm by (simp add: attrs_only_tag ir mask_index_append wf_df_def nrows_def)
  have D: "drop_totals ?R (IgnoreStr L) = Inr (loc_rows ?R ?m)"
    by (rule drop_totals_explicit)
  have len: "index_len (index T) = length (cells T)"
    using wf by (simp add: wf_df_def nrows_def)
  have i: "index (loc_rows ?R ?m) = index T"
    unfolding m
    by (simp add: loc_rows_def attrs_only_tag ir index_select_append len[symmetric]
        index_select_all_True)
  have c: "cells (loc_rows ?R ?m) = cells T"
    unfolding m
    by (simp add: loc_rows_def attrs_only_tag cells_r select_append select_all_True select_False)
  have k: "columns (loc_rows ?R ?m) = columns T"
    by (simp add: loc_rows_def attrs_only_tag cr)
  from R D i c k show ?thesis by blast
qed


lemma index_len_append_margin:
  "index_len (index_append idx (margin_key idx l fill)) = Suc (index_len idx)"
  by (cases idx) simp_all

lemma map_take_rows: "list_all (\<lambda>r. length r = n) xs \<Longrightarrow> map (take n) xs = xs"
  by (induction xs) simp_all

lemma add_agg_rows_wf:
  assumes "wf_df data" and "add_agg_rows data l ks fill = Inr r"
  shows "wf_df r"
proof -
  from add_agg_rows_result[OF assms(2)] obtain row where
    "index r = index_append (index data) (margin_key (index data) l fill)"
    "columns r = columns data" "cells r = cells data @ [row]" "length row = ncols data"
    by blast
  with assms(1) show ?thesis
    by (simp add: wf_df_def nrows_def ncols_def index_len_append_margin)
qed

text \<open>What \<open>add_agg\<close> for the columns returns: every row of the table, one cell longer.\<close>

lemma add_agg_columns_result:
  assumes wf: "wf_df data" and r: "add_agg data (Suc 0) l ks fill = Inr r"
  shows "index r = index data"
    and "map (take (ncols data)) (cells r) = cells data"
    and "attrs r = attrs data"
proof -
  from r obtain x where x: "add_agg_rows (transpose_df data) l ks fill = Inr x"
    and rx: "r = transpose_df x"
    by (auto simp: add_agg_def ebind_def split: sum.splits)
  from add_agg_rows_result[OF x] obtain row where
    cx: "columns x = index data"
    and cells_x: "cells x = map (column data) [0..<ncols data] @ [row]"
    and ax: "attrs x = attrs data"
    by (auto simp: transpose_df_def)
  show "index r = index data" by (simp add: rx transpose_df_def cx)
  show "attrs r = attrs data" by (simp add: rx transpose_df_def ax)
  have nx: "ncols x = length (cells data)"
    using wf by (simp add: ncols_def cx wf_df_def nrows_def)
  have row_i: "take (ncols data) (column x i) = cells data ! i" if i: "i < length (cells data)" for i
  proof -
    from wf i have len: "length (cells data ! i) = ncols data"
      by (simp add: wf_df_def list_all_length)
    have "column x i = map (\<lambda>j. cells data ! i ! j) [0..<ncols data] @ [row ! i]"
      using i by (simp add: column_def cells_x)
    also have "map (\<lambda>j. cells data ! i ! j) [0..<ncols data] = cells data ! i"
      using len map_nth[of "cells data ! i"] by simp
    finally show ?thesis using len by simp
  qed
  have "map (take (ncols data)) (cells r)
        = map (\<lambda>i. take (ncols data) (column x i)) [0..<length (cells data)]"
    by (simp add: rx transpose_df_def nx)
  also have "\<dots> = map (\<lambda>i. cells data ! i) [0..<length (cells data)]"
    using row_i by simp
  also have "\<dots> = cells data" by (rule map_nth)
  finally show "map (take (ncols data)) (cells r) = cells data" .
qed

lemma drop_appended:
  assumes wf: "wf_df T"
    and nomatch: "get_data_mask (index T) (IgnoreStr L) = replicate (nrows T) True"
    and ir: "index R = index_append (index T) (margin_key (index T) L fill)"
    and cr: "map (take n) (cells R) = cells T @ [row]"
  shows "\<exists>R'. drop_totals R (IgnoreStr L) = Inr R'
            \<and> index R' = index T \<and> map (take n) (cells R') = cells T"
proof -
  from nomatch have nm: "mask_index [StrKey L] (index T) = replicate (index_len (index T)) True"
    by (simp add: nrows_def)
  have len: "index_len (index T) = length (cells T)"
    using wf by (simp add: wf_df_def nrows_def)
  let ?m = "mask_index [StrKey L] (index R)"
  have m: "?m = replicate (length (cells T)) True @ [False]"
    using nm by (simp add: ir mask_index_append len)
  have i: "index (loc_rows R ?m) = index T"
    unfolding m
    by (simp add: loc_rows_def ir index_select_append len[symmetric] index_select_all_True)
  have "map (take n) (cells (loc_rows R ?m)) = select ?m (map (take n) (cells R))"
    by (simp add: loc_rows_def select_map)
  also have "\<dots> = cells T"
    unfolding m cr by (simp add: select_append select_all_True select_False)
  finally have c: "map (take n) (cells (loc_rows R ?m)) = cells T" .
  from drop_totals_explicit[of R L] i c show ?thesis by blast
qed

lemma drop_unchanged:
  assumes wf: "wf_df T"
    and nomatch: "get_data_mask (index T) (IgnoreStr L) = replicate (nrows T) True"
    and ir: "index R = index T"
    and cr: "map (take n) (cells R) = cells T"
  shows "\<exists>R'. drop_totals R (IgnoreStr L) = Inr R'
            \<and> index R' = index T \<and> map (take n) (cells R') = cells T"
proof -
  from nomatch have nm: "mask_index [StrKey L] (index T) = replicate (index_len (index T)) True"
    by (simp add: nrows_def)
  have len: "index_len (index T) = length (cells T)"
    using wf by (simp add: wf_df_def nrows_def)
  from cr have len': "length (cells R) = length (cells T)"
    by (metis length_map)
  let ?m = "mask_index [StrKey L] (index R)"
  have m: "?m = replicate (length (cells R)) True"
    using nm by (simp add: ir len len')
  have i: "index (loc_rows R ?m) = index T"
    unfolding m by (simp add: loc_rows_def ir len' len[symmetric] index_select_all_True)
  have c: "map (take n) (cells (loc_rows R ?m)) = cells T"
    unfolding m by (simp add: loc_rows_def select_all_True cr)
  from drop_totals_explicit[of R L] i c show ?thesis by blast
qed

lemma add_totals_axis_rows:
  assumes "add_totals_axis kl D 0 l ik fill = Inr R"
  shows "\<exists>r. add_agg_rows D l (resolve_ignored_keys_totals D 0 ik) fill = Inr r
           \<and> R = tag_labels ''totals'' kl [(''label'', Some l)] r"
  using assms
  by (auto simp: add_totals_axis_def add_agg_def ebind_def Let_def split: sum.splits)

lemma add_totals_axis_columns:
  assumes "add_totals_axis kl D (Suc 0) l ik fill = Inr R"
  shows "\<exists>r. add_agg D (Suc 0) l (resolve_ignored_keys_totals D (Suc 0) ik) fill = Inr r
           \<and> R = tag_labels ''totals'' kl [(''label'', Some l)] r"
  using assms
  by (auto simp: add_totals_axis_def ebind_def Let_def split: sum.splits)

lemma round_trip_any_axis:
  assumes wf: "wf_df T"
    and nomatch: "get_data_mask (index T) (IgnoreStr L) = replicate (nrows T) True"
    and R: "add_totals key_label_params T ax L ignore_keys fill = Inr R"
  shows "\<exists>R'. drop_totals R (IgnoreStr L) = Inr R'
            \<and> index R' = index T \<and> map (take (ncols T)) (cells R') = cells T"
proof -
  from R obtain a where ra: "resolve_axis ax = Inr a"
    by (cases "resolve_axis ax") (auto simp: add_totals_def ebind_def)
  then have "a = 0 \<or> a = 1 \<or> a = 2" by (rule resolve_axis_range)
  then consider (rows) "a = 0" | (cols) "a = 1" | (both) "a = 2" by blast
  then show ?thesis
  proof cases
    case rows
    with R ra have "add_totals_axis key_label_params T 0 L ignore_keys fill = Inr R"
      by (simp add: add_totals_def ebind_def)
    from add_totals_axis_rows[OF this] obtain r where
      r: "add_agg_rows T L (resolve_ignored_keys_totals T 0 ignore_keys) fill = Inr r"
      and Rr: "R = tag_labels ''totals'' key_label_params [(''label'', Some L)] r" by blast
    from add_agg_rows_result[OF r] obtain row where
      ir: "index r = index_append (index T) (margin_key (index T) L fill)"
      and cells_r: "cells r = cells T @ [row]" and lrow: "length row = ncols T"
      by blast
    from wf lrow have "map (take (ncols T)) (cells r) = cells T @ [row]"
      by (simp add: cells_r wf_df_def map_take_rows)
    with ir have "index R = index_append (index T) (margin_key (index T) L fill)"
      "map (take (ncols T)) (cells R) = cells T @ [row]"
      by (simp_all add: Rr attrs_only_tag)
    then show ?thesis by (rule drop_appended[OF wf nomatch])
  next
    case cols
    with R ra have "add_totals_axis key_label_params T (Suc 0) L ignore_keys fill = Inr R"
      by (simp add: add_totals_def ebind_def)
    from add_totals_axis_columns[OF this] obtain r where
      r: "add_agg T (Suc 0) L (resolve_ignored_keys_totals T (Suc 0) ignore_keys) fill = Inr r"
      and Rr: "R = tag_labels ''totals'' key_label_params [(''label'', Some L)] r" by blast
    from add_agg_columns_result[OF wf r]
    have "index R = index T" "map (take (ncols T)) (cells R) = cells T"
      by (simp_all add: Rr attrs_only_tag)
    then show ?thesis by (rule drop_unchanged[OF wf nomatch])
  next
    case both
    let ?keys = "IgnoreList (resolve_ignored_keys_totals T 2 ignore_keys)"
    from R ra both obtain d0 d1 where
      d0: "add_totals_axis key_label_params T 0 L ?keys fill = Inr d0"
      and d1: "add_totals_axis key_label_params d0 (Suc 0) L ?keys fill = Inr d1"
      and Rd: "R = tag_labels ''totals'' key_label_params [(''label'', Some L)] d1"
      by (auto simp: add_totals_def ebind_def Let_def split: sum.splits)
    from add_totals_axis_rows[OF d0] obtain r0 where
      r0: "add_agg_rows T L (resolve_ignored_keys_totals T 0 ?keys) fill = Inr r0"
      and d0r: "d0 = tag_labels ''totals'' key_label_params [(''label'', Some L)] r0" by blast
    from add_agg_rows_result[OF r0] obtain row where
      ir0: "index r0 = index_append (index T) (margin_key (index T) L fill)"
      and cr0: "columns r0 = columns T"
      and cells_r0: "cells r0 = cells T @ [row]"
      by blast
    have wf0: "wf_df d0"
      using add_agg_rows_wf[OF wf r0]
      by (simp add: d0r wf_df_def nrows_def ncols_def attrs_only_tag)
    from add_totals_axis_columns[OF d1] obtain r1 where
      r1: "add_agg d0 (Suc 0) L (resolve_ignored_keys_totals d0 (Suc 0) ?keys) fill = Inr r1"
      and d1r: "d1 = tag_labels ''totals'' key_label_params [(''label'', Some L)] r1" by blast
    have n0: "ncols d0 = ncols T" by (simp add: d0r ncols_def attrs_only_tag cr0)
    from add_agg_columns_result[OF wf0 r1]
    have "index r1 = index d0" "map (take (ncols T)) (cells r1) = cells d0"
      by (simp_all add: n0)
    then have "index R = index_append (index T) (margin_key (index T) L fill)"
      "map (take (ncols T)) (cells R) = cells T @ [row]"
      by (simp_all add: Rd d1r d0r attrs_only_tag ir0 cells_r0)
    then show ?thesis by (rule drop_appended[OF wf nomatch])
  qed
qed

text \<open>
  C7, as stated, fails. A data row whose label starts with the totals label is dropped
  together with the totals row; and for axis 2 the rows that come back still carry the
  cell of the totals column.
\<close>

theorem round_trip_counterexample:
  "map_sum id (\<lambda>d. (index d, cells d))
     (ebind (add_totals [''label''] prefixed_df (AxisInt 0) ''Totals'' IgnoreNone '''')
        (\<lambda>d. drop_totals d (IgnoreStr ''Totals'')))
     = Inr (Index [StrKey ''x''], [[Fin 2]])
   \<and> (index prefixed_df, cells prefixed_df)
       = (Index [StrKey ''Totals 2020'', StrKey ''x''], [[Fin 1], [Fin 2]])
   \<and> map_sum id cells
       (ebind (add_totals [''label''] plain_df (AxisInt 2) ''Totals'' IgnoreNone '''')
          (\<lambda>d. drop_totals d (IgnoreStr ''Totals'')))
     = Inr [[Fin 10, Fin 15, Fin 25], [Fin 20, Fin 25, Fin 45], [Fin 30, Fin 20, Fin 50]]
   \<and> cells plain_df = [[Fin 10, Fin 15], [Fin 20, Fin 25], [Fin 30, Fin 20]]"
  by code_simp

text \<open>
  C7, amended. Let no row key of the well-formed table \<open>T\<close> match the label \<open>L\<close>. Then
  \<open>add_totals\<close> for axis 0 succeeds, and \<open>drop_totals\<close> with \<open>ignore_keys = L\<close> gives back
  the row index, the columns and the cells of \<open>T\<close>. For any axis on which \<open>add_totals\<close>
  succeeds, \<open>drop_totals\<close> gives back the row index of \<open>T\<close> and rows that, cut to the
  columns of \<open>T\<close>, are the rows of \<open>T\<close>.
\<close>

theorem drop_totals_add_totals_round_trip:
  assumes "wf_df T"
    and "get_data_mask (index T) (IgnoreStr L) = replicate (nrows T) True"
  shows "(\<exists>R R'. add_totals key_label_params T (AxisInt 0) L ignore_keys fill = Inr R
            \<and> drop_totals R (IgnoreStr L) = Inr R'
            \<and> index R' = index T \<and> columns R' = columns T \<and> cells R' = cells T)
       \<and> (\<forall>ax R. add_totals key_label_params T ax L ignore_keys fill = Inr R \<longrightarrow>
            (\<exists>R'. drop_totals R (IgnoreStr L) = Inr R'
               \<and> index R' = index T \<and> map (take (ncols T)) (cells R') = cells T))"
  using round_trip_rows[OF assms] round_trip_any_axis[OF assms] by blast

lemma wf_plain_df: "wf_df plain_df"
  by (simp add: wf_df_def plain_df_def nrows_def ncols_def)

theorem drop_totals_add_totals_round_trip_witness:
  "wf_df plain_df
   \<and> get_data_mask (index plain_df) (IgnoreStr ''Totals'') = replicate (nrows plain_df) True
   \<and> (\<exists>R R'. add_totals [''label''] plain_df (AxisInt 0) ''Totals'' IgnoreNone '''' = Inr R
         \<and> drop_totals R (IgnoreStr ''Totals'') = Inr R'
         \<and> index R' = index plain_df \<and> columns R' = columns plain_df
         \<and> cells R' = cells plain_df)
   \<and> (\<exists>R R'. add_totals [''label''] plain_df (AxisInt 2) ''Totals'' IgnoreNone '''' = Inr R
         \<and> drop_totals R (IgnoreStr ''Totals'') = Inr R'
         \<and> index R' = index plain_df
         \<and> map (take (ncols plain_df)) (cells R') = cells plain_df)"
proof -
  have h1: "wf_df plain_df" by (rule wf_plain_df)
  have h2: "get_data_mask (index plain_df) (IgnoreStr ''Totals'') = replicate (nrows plain_df) True"
    by code_simp
  have "\<not> isl (add_totals [''label''] plain_df (AxisInt 2) ''Totals'' IgnoreNone '''')"
    by code_simp
  then obtain R where
    R: "add_totals [''label''] plain_df (AxisInt 2) ''Totals'' IgnoreNone '''' = Inr R"
    by (cases "add_totals [''label''] plain_df (AxisInt 2) ''Totals'' IgnoreNone ''''") auto
  note rt = drop_totals_add_totals_round_trip[OF h1 h2, of "[''label'']" IgnoreNone "''''"]
  from rt have a: "\<exists>R R'. add_totals [''label''] plain_df (AxisInt 0) ''Totals'' IgnoreNone '''' = Inr R
         \<and> drop_totals R (IgnoreStr ''Totals'') = Inr R'
         \<and> index R' = index plain_df \<and> columns R' = columns plain_df
         \<and> cells R' = cells plain_df"
    by (rule conjunct1)
  from rt R have b: "\<exists>R'. drop_totals R (IgnoreStr ''Totals'') = Inr R'
         \<and> index R' = index plain_df
         \<and> map (take (ncols plain_df)) (cells R') = cells plain_df"
    by blast
  from h1 h2 a b R show ?thesis by blast
qed

end
